theory Spec2Isabelle
  imports Complex_Main
begin

section \<open>Numbers, failures and small vectors\<close>

text \<open>
  The module \<open>methods/hmmem.py\<close> computes with numpy arrays of IEEE doubles and of
  machine integers. The embedding takes the doubles as real numbers (exact arithmetic,
  no rounding, no overflow, no underflow) and the integer arrays as lists of \<open>nat\<close> or
  \<open>int\<close>.

  A run of the source ends in one of the Python exceptions below, or returns. numpy
  does not raise on a division by zero or on the logarithm of a non-positive number:
  it stores \<open>inf\<close> or \<open>nan\<close> and goes on. The reals have no such values, so the
  model stops there with \<open>NonFinite\<close>: this outcome means that the source has, at
  that operation, produced an \<open>inf\<close> or a \<open>nan\<close> without raising, and the model
  says nothing about what the source does with it afterwards.
\<close>

datatype failure =
    ScalingAlpha nat nat    \<comment> \<open>ValueError "Numerical error when scaling alpha[k]", with t and k\<close>
  | ScalingZeta nat nat     \<comment> \<open>ValueError "Numerical error when scaling zeta_i_j[k]", with t and k\<close>
  | NegativeDimension       \<comment> \<open>ValueError of \<open>np.empty\<close> on a negative length\<close>
  | RollingWindow           \<comment> \<open>ValueError of \<open>Series.rolling\<close> on a window below \<open>min_periods\<close>\<close>
  | AssertionError
  | IndexError
  | Broadcast               \<comment> \<open>ValueError of numpy on rows of different lengths\<close>
  | Uninitialised           \<comment> \<open>model only: a read of a slot of \<open>np.empty\<close> that was never written\<close>
  | NonFinite               \<comment> \<open>model only: the source goes on with \<open>inf\<close> or \<open>nan\<close>\<close>

definition and_then :: "failure + 'a \<Rightarrow> ('a \<Rightarrow> failure + 'b) \<Rightarrow> failure + 'b" where
  "and_then m f = (case m of Inl e \<Rightarrow> Inl e | Inr x \<Rightarrow> f x)"

text \<open>\<open>EPS = np.spacing(1)\<close>, the gap between 1 and the next double.\<close>

definition EPS :: real where
  "EPS = 1 / 2 ^ 52"

definition flog :: "real \<Rightarrow> failure + real" where
  "flog x = (if 0 < x then Inr (ln x) else Inl NonFinite)"

text \<open>
  A column of a \<open>2 \<times> n\<close> table is a pair (state 0, state 1); a \<open>2 \<times> 2\<close> matrix is the
  pair of its rows; a \<open>2 \<times> n\<close> table is the list of its columns, a \<open>2 \<times> 2 \<times> n\<close>
  table the list of its \<open>2 \<times> 2\<close> blocks, both indexed by the bin \<open>k\<close>.
\<close>

type_synonym vec2 = "real \<times> real"
type_synonym mat2 = "vec2 \<times> vec2"

definition vsum :: "vec2 \<Rightarrow> real" where
  "vsum v = fst v + snd v"

definition vadd :: "vec2 \<Rightarrow> vec2 \<Rightarrow> vec2" where
  "vadd u v = (fst u + fst v, snd u + snd v)"

definition vmul :: "vec2 \<Rightarrow> vec2 \<Rightarrow> vec2" where
  "vmul u v = (fst u * fst v, snd u * snd v)"

definition vdiv :: "vec2 \<Rightarrow> real \<Rightarrow> failure + vec2" where
  "vdiv v c = (if c = 0 then Inl NonFinite else Inr (fst v / c, snd v / c))"

definition vecmat :: "vec2 \<Rightarrow> mat2 \<Rightarrow> vec2" where
  \<comment> \<open>\<open>np.matmul(v.transpose(), M)\<close>\<close>
  "vecmat v M = (fst v * fst (fst M) + snd v * fst (snd M),
                 fst v * snd (fst M) + snd v * snd (snd M))"

definition matvec :: "mat2 \<Rightarrow> vec2 \<Rightarrow> vec2" where
  \<comment> \<open>\<open>np.matmul(M, v)\<close>\<close>
  "matvec M v = (fst (fst M) * fst v + snd (fst M) * snd v,
                 fst (snd M) * fst v + snd (snd M) * snd v)"

definition msum :: "mat2 \<Rightarrow> real" where
  "msum M = vsum (fst M) + vsum (snd M)"

definition madd :: "mat2 \<Rightarrow> mat2 \<Rightarrow> mat2" where
  "madd M N = (vadd (fst M) (fst N), vadd (snd M) (snd N))"

definition mscale :: "mat2 \<Rightarrow> real \<Rightarrow> mat2" where
  \<comment> \<open>\<open>M / c\<close> for a divisor already known to be positive\<close>
  "mscale M c = ((fst (fst M) / c, snd (fst M) / c), (fst (snd M) / c, snd (snd M) / c))"

definition row_sums :: "mat2 \<Rightarrow> vec2" where
  \<comment> \<open>\<open>np.sum(M, axis=1)\<close>\<close>
  "row_sums M = (vsum (fst M), vsum (snd M))"

section \<open>The history sequence of \<open>run_hmmem\<close>\<close>

text \<open>
  \<open>pd.Series(xs).rolling(w, center=False, min_periods=1).sum()\<close>: entry \<open>k\<close> is the sum
  of the last \<open>w\<close> entries up to and including \<open>k\<close>, of all of them when fewer than
  \<open>w\<close> exist. pandas refuses a window smaller than \<open>min_periods\<close>.
\<close>

definition rolling_sum :: "int \<Rightarrow> int list \<Rightarrow> failure + int list" where
  "rolling_sum w xs =
     (if w < 1 then Inl RollingWindow
      else Inr (map (\<lambda>k. sum_list (drop (Suc k - nat w) (take (Suc k) xs))) [0..<length xs]))"

text \<open>
  Lines 56 to 60 of \<open>run_hmmem\<close>: the rolling sum over \<open>history_window_nbins + 1\<close> bins,
  minus the bin's own count. The counts come from \<open>np.histogram\<close> and are natural
  numbers.
\<close>

definition bin_history :: "int \<Rightarrow> nat list \<Rightarrow> failure + int list" where
  "bin_history W bin_spike_count =
     and_then (rolling_sum (W + 1) (map int bin_spike_count))
       (\<lambda>r. Inr (map2 (\<lambda>s c. s - int c) r bin_spike_count))"

section \<open>The emission model\<close>

text \<open>
  Eq 2.3 and Eq 2.2 of \<open>_run_hmmem\<close> (lines 129 to 142, again 248 to 259):
  \<open>bin_lambda[i, k] = exp(mu + alphaa * STATES[i] + betaa * history[0, k])\<close> with
  \<open>STATES = [0, 1]\<close>, and the Poisson probability of the count of bin \<open>k\<close>.
\<close>

definition bin_lambda :: "real \<Rightarrow> real \<Rightarrow> real \<Rightarrow> int \<Rightarrow> vec2" where
  "bin_lambda mu alphaa betaa h =
     (exp (mu + alphaa * 0 + betaa * real_of_int h),
      exp (mu + alphaa * 1 + betaa * real_of_int h))"

definition poisson :: "real \<Rightarrow> nat \<Rightarrow> real" where
  "poisson lam c = exp (- lam) * lam ^ c / fact c"

definition emission :: "real \<Rightarrow> real \<Rightarrow> real \<Rightarrow> nat list \<Rightarrow> int list \<Rightarrow> vec2 list" where
  "emission mu alphaa betaa bin_spike_count bin_history_spike_count =
     map (\<lambda>k. let l = bin_lambda mu alphaa betaa (bin_history_spike_count ! k)
              in (poisson (fst l) (bin_spike_count ! k), poisson (snd l) (bin_spike_count ! k)))
       [0..<length bin_spike_count]"

section \<open>The E-step: scaled forward and backward passes\<close>

text \<open>
  Lines 164 to 184. Column 0 is scaled by \<open>C[0]\<close> with no test; the columns
  \<open>k = 1, \<dots>, nbins - 1\<close> are scaled under the test \<open>C[k] > 0\<close>, which raises otherwise.
  The table \<open>alpha\<close> lives across the EM iterations and is updated in place; \<open>C\<close> is a
  fresh array of zeros in every iteration.
\<close>

fun forward_loop ::
  "nat \<Rightarrow> mat2 \<Rightarrow> vec2 list \<Rightarrow> nat list \<Rightarrow> vec2 list \<times> real list \<Rightarrow> failure + vec2 list \<times> real list"
where
  "forward_loop t A B [] (al, C) = Inr (al, C)"
| "forward_loop t A B (k # ks) (al, C) =
     (let a = vmul (vecmat (al ! (k - 1)) A) (B ! k); c = vsum a
      in if 0 < c then forward_loop t A B ks (al[k := (fst a / c, snd a / c)], C[k := c])
         else Inl (ScalingAlpha t k))"

definition forward ::
  "nat \<Rightarrow> vec2 \<Rightarrow> mat2 \<Rightarrow> vec2 list \<Rightarrow> vec2 list \<Rightarrow> failure + vec2 list \<times> real list"
where
  "forward t p0 A B al =
     (let nbins = length B
      in if nbins = 0 then Inl IndexError
         else let a = vmul p0 (B ! 0); c = vsum a
              in and_then (vdiv a c)
                   (\<lambda>a'. forward_loop t A B [1..<nbins] (al[0 := a'], (replicate nbins 0)[0 := c])))"

text \<open>Line 186: \<open>log_P[t] = np.sum(np.log(C[0:nbins] + EPS))\<close>.\<close>

fun sum_log :: "real list \<Rightarrow> failure + real" where
  "sum_log [] = Inr 0"
| "sum_log (c # cs) =
     and_then (flog (c + EPS)) (\<lambda>l. and_then (sum_log cs) (\<lambda>s. Inr (l + s)))"

text \<open>Lines 191 to 201, for \<open>k = nbins - 2\<close> down to 0.\<close>

fun backward_loop ::
  "mat2 \<Rightarrow> vec2 list \<Rightarrow> real list \<Rightarrow> nat list \<Rightarrow> vec2 list \<Rightarrow> failure + vec2 list"
where
  "backward_loop A B C [] be = Inr be"
| "backward_loop A B C (k # ks) be =
     and_then (vdiv (matvec A (vmul (be ! (k + 1)) (B ! (k + 1)))) (C ! k))
       (\<lambda>b. backward_loop A B C ks (be[k := b]))"

definition backward :: "mat2 \<Rightarrow> vec2 list \<Rightarrow> real list \<Rightarrow> vec2 list \<Rightarrow> failure + vec2 list" where
  "backward A B C be =
     (let nbins = length B
      in and_then (vdiv (1, 1) (C ! (nbins - 1)))
           (\<lambda>b. backward_loop A B C (rev [0..<nbins - 1]) (be[nbins - 1 := b])))"

text \<open>
  Lines 203 to 221, for \<open>k = 0, \<dots>, nbins - 2\<close>:
  \<open>temp[i, j] = alpha[i, k] * (beta[j, k+1] * B[j, k+1]) * A[i, j]\<close>, scaled by its sum
  under the test that the sum is positive; \<open>gamma[:, k]\<close> is the row sum of the block
  just stored. Nothing writes the block or the column of the last bin.
\<close>

definition zeta_temp :: "vec2 \<Rightarrow> vec2 \<Rightarrow> mat2 \<Rightarrow> mat2" where
  "zeta_temp a w A =
     ((fst a * fst w * fst (fst A), fst a * snd w * snd (fst A)),
      (snd a * fst w * fst (snd A), snd a * snd w * snd (snd A)))"

fun zeta_loop ::
  "nat \<Rightarrow> mat2 \<Rightarrow> vec2 list \<Rightarrow> vec2 list \<Rightarrow> vec2 list \<Rightarrow> nat list \<Rightarrow> mat2 list \<times> vec2 list
     \<Rightarrow> failure + mat2 list \<times> vec2 list"
where
  "zeta_loop t A B al be [] (ze, ga) = Inr (ze, ga)"
| "zeta_loop t A B al be (k # ks) (ze, ga) =
     (let temp = zeta_temp (al ! k) (vmul (be ! (k + 1)) (B ! (k + 1))) A
      in if 0 < msum temp
         then let z = mscale temp (msum temp)
              in zeta_loop t A B al be ks (ze[k := z], ga[k := row_sums z])
         else Inl (ScalingZeta t k))"

section \<open>The M-step\<close>

text \<open>
  Lines 232 to 234: \<open>temp1 = np.sum(zeta, axis=2)\<close>, \<open>temp2 = np.sum(gamma, axis=1)\<close>,
  and row \<open>i\<close> of \<open>temp1\<close> divided by \<open>temp2[i]\<close>, with no test on the divisor.
\<close>

definition update_A :: "mat2 list \<Rightarrow> vec2 list \<Rightarrow> failure + mat2" where
  "update_A ze ga =
     (let temp1 = foldr madd ze ((0, 0), (0, 0)); temp2 = foldr vadd ga (0, 0)
      in and_then (vdiv (fst temp1) (fst temp2))
           (\<lambda>r0. and_then (vdiv (snd temp1) (snd temp2)) (\<lambda>r1. Inr (r0, r1))))"

text \<open>
  \<open>newton_ralphson\<close> (lines 311 to 430). Each of its three loops runs \<open>n_iter\<close> times
  (not at all for \<open>n_iter \<le> 0\<close>): \<open>update = update - g / gprime\<close>, then the result
  variable takes the value of \<open>update\<close>. The result variables start at \<open>0.0\<close>
  (lines 327 and 331). The counts and the history are rows (shape \<open>(1, n)\<close>), \<open>Z\<close> is
  one-dimensional. numpy combines them when the two rows have one length and \<open>Z\<close> has
  that length or length 1, in which case its only entry stands for every bin; any
  other combination of lengths raises a ValueError before the function returns, in
  one of the loops or at \<open>temp1\<close> or \<open>temp2\<close>, which are computed whatever \<open>n_iter\<close> is.
\<close>

fun newton_loop ::
  "(real \<Rightarrow> real) \<Rightarrow> (real \<Rightarrow> real) \<Rightarrow> nat \<Rightarrow> real \<times> real \<Rightarrow> failure + real \<times> real"
where
  "newton_loop g gprime 0 (update, res) = Inr (update, res)"
| "newton_loop g gprime (Suc n) (update, res) =
     (if gprime update = 0 then Inl NonFinite
      else let update' = update - g update / gprime update
           in newton_loop g gprime n (update', update'))"

definition g_mu :: "nat list \<Rightarrow> real list \<Rightarrow> int list \<Rightarrow> real \<Rightarrow> real \<Rightarrow> real \<Rightarrow> real" where
  "g_mu cs Z hs init_alphaa init_betaa update =
     (\<Sum>k\<leftarrow>[0..<length cs]. exp (update + init_alphaa * Z ! k + init_betaa * real_of_int (hs ! k)))
       - real (sum_list cs)"

definition gprime_mu :: "nat list \<Rightarrow> real list \<Rightarrow> int list \<Rightarrow> real \<Rightarrow> real \<Rightarrow> real \<Rightarrow> real" where
  "gprime_mu cs Z hs init_alphaa init_betaa update =
     (\<Sum>k\<leftarrow>[0..<length cs]. exp (update + init_alphaa * Z ! k + init_betaa * real_of_int (hs ! k)))"

definition g_alphaa :: "nat list \<Rightarrow> real list \<Rightarrow> int list \<Rightarrow> real \<Rightarrow> real \<Rightarrow> real \<Rightarrow> real" where
  "g_alphaa cs Z hs mu init_betaa update =
     (\<Sum>k\<leftarrow>[0..<length cs]. Z ! k * exp (mu + update * Z ! k + init_betaa * real_of_int (hs ! k)))
       - (\<Sum>k\<leftarrow>[0..<length cs]. real (cs ! k) * Z ! k)"

definition gprime_alphaa :: "nat list \<Rightarrow> real list \<Rightarrow> int list \<Rightarrow> real \<Rightarrow> real \<Rightarrow> real \<Rightarrow> real" where
  "gprime_alphaa cs Z hs mu init_betaa update =
     (\<Sum>k\<leftarrow>[0..<length cs]. Z ! k * Z ! k * exp (mu + update * Z ! k + init_betaa * real_of_int (hs ! k)))"

definition g_betaa :: "nat list \<Rightarrow> real list \<Rightarrow> int list \<Rightarrow> real \<Rightarrow> real \<Rightarrow> real \<Rightarrow> real" where
  "g_betaa cs Z hs mu alphaa update =
     (\<Sum>k\<leftarrow>[0..<length cs]. real_of_int (hs ! k) * exp (mu + alphaa * Z ! k + update * real_of_int (hs ! k)))
       - (\<Sum>k\<leftarrow>[0..<length cs]. real (cs ! k) * real_of_int (hs ! k))"

definition gprime_betaa :: "nat list \<Rightarrow> real list \<Rightarrow> int list \<Rightarrow> real \<Rightarrow> real \<Rightarrow> real \<Rightarrow> real" where
  "gprime_betaa cs Z hs mu alphaa update =
     (\<Sum>k\<leftarrow>[0..<length cs]. real_of_int (hs ! k) * real_of_int (hs ! k)
         * exp (mu + alphaa * Z ! k + update * real_of_int (hs ! k)))"

definition broadcast :: "nat \<Rightarrow> real list \<Rightarrow> real list" where
  \<comment> \<open>a one-dimensional array against a row of length \<open>n\<close>\<close>
  "broadcast n Z = (if length Z = n then Z else replicate n (Z ! 0))"

definition newton_ralphson ::
  "nat list \<Rightarrow> real list \<Rightarrow> int list \<Rightarrow> real \<Rightarrow> real \<Rightarrow> real \<Rightarrow> int \<Rightarrow> failure + real \<times> real \<times> real"
where
  "newton_ralphson bin_spike_count Z bin_history_spike_count init_alphaa init_betaa init_mu n_iter =
     (if \<not> 1 < length bin_spike_count then Inl AssertionError
      else if \<not> 1 < length bin_history_spike_count then Inl AssertionError
      else if length bin_history_spike_count \<noteq> length bin_spike_count
              \<or> (length Z \<noteq> length bin_spike_count \<and> length Z \<noteq> 1) then Inl Broadcast
      else
        let Zb = broadcast (length bin_spike_count) Z
        in and_then (newton_loop
            (g_mu bin_spike_count Zb bin_history_spike_count init_alphaa init_betaa)
            (gprime_mu bin_spike_count Zb bin_history_spike_count init_alphaa init_betaa)
            (nat n_iter) (init_mu + 0.01 * 0.1, 0))
        (\<lambda>(u1, mu). and_then (newton_loop
            (g_alphaa bin_spike_count Zb bin_history_spike_count mu init_betaa)
            (gprime_alphaa bin_spike_count Zb bin_history_spike_count mu init_betaa)
            (nat n_iter) (init_alphaa + 0.01 * 0.2, 0))
        (\<lambda>(u2, alphaa). and_then (newton_loop
            (g_betaa bin_spike_count Zb bin_history_spike_count mu alphaa)
            (gprime_betaa bin_spike_count Zb bin_history_spike_count mu alphaa)
            (nat n_iter) (init_betaa + 0.01 * 0.3, 0))
        (\<lambda>(u3, betaa). Inr (alphaa, betaa, mu)))))"

section \<open>The EM driver\<close>

text \<open>
  The local variables of \<open>_run_hmmem\<close> that the loop of lines 159 to 266 reads and
  writes. \<open>log_P\<close> is \<open>np.empty((n_iter_EM,))\<close>: a slot holds \<open>None\<close> until the loop
  writes it (the source finds there whatever the allocator left).
\<close>

record em_state =
  st_A :: mat2
  st_alphaa :: real
  st_betaa :: real
  st_mu :: real
  st_B :: "vec2 list"
  st_p0 :: vec2
  st_alpha :: "vec2 list"
  st_beta :: "vec2 list"
  st_gamma :: "vec2 list"
  st_zeta :: "mat2 list"
  st_t :: nat
  st_log_P :: "real option list"
  st_diff_log_P :: real

definition init_state ::
  "nat list \<Rightarrow> int list \<Rightarrow> mat2 \<Rightarrow> real \<Rightarrow> real \<Rightarrow> real \<Rightarrow> int \<Rightarrow> em_state"
where
  "init_state bin_spike_count bin_history_spike_count init_A init_alphaa init_betaa init_mu n_iter_EM =
     (let nbins = length bin_spike_count
      in \<lparr> st_A = init_A, st_alphaa = init_alphaa, st_betaa = init_betaa, st_mu = init_mu,
           st_B = emission init_mu init_alphaa init_betaa bin_spike_count bin_history_spike_count,
           st_p0 = (0.5 * 1, 0.5 * 1),
           st_alpha = replicate nbins (0, 0), st_beta = replicate nbins (0, 0),
           st_gamma = replicate nbins (0, 0), st_zeta = replicate nbins ((0, 0), (0, 0)),
           st_t = 0, st_log_P = replicate (nat n_iter_EM) None, st_diff_log_P = 10 \<rparr>)"

text \<open>
  One pass through the loop body, lines 161 to 259: E-step, \<open>Z\<close>, M-step, the new
  emission table. The counter and \<open>diff_log_P\<close> are left to the loop.
\<close>

definition em_body :: "nat list \<Rightarrow> int list \<Rightarrow> int \<Rightarrow> em_state \<Rightarrow> failure + em_state" where
  "em_body bin_spike_count bin_history_spike_count n_iter_newton_ralphson st =
     and_then (forward (st_t st) (st_p0 st) (st_A st) (st_B st) (st_alpha st))
     (\<lambda>(al, C). and_then (sum_log C)
     (\<lambda>lp. and_then (backward (st_A st) (st_B st) C (st_beta st))
     (\<lambda>be. and_then (zeta_loop (st_t st) (st_A st) (st_B st) al be
                         [0..<length bin_spike_count - 1] (st_zeta st, st_gamma st))
     (\<lambda>(ze, ga).
        let Z = map (\<lambda>g. 0 * fst g + 1 * snd g) ga
        in and_then (update_A ze ga)
     (\<lambda>A. and_then (newton_ralphson bin_spike_count Z bin_history_spike_count
                        (st_alphaa st) (st_betaa st) (st_mu st) n_iter_newton_ralphson)
     (\<lambda>(alphaa, betaa, mu).
        Inr (st \<lparr> st_A := A, st_alphaa := alphaa, st_betaa := betaa, st_mu := mu,
                  st_B := emission mu alphaa betaa bin_spike_count bin_history_spike_count,
                  st_p0 := ga ! 0,
                  st_alpha := al, st_beta := be, st_gamma := ga, st_zeta := ze,
                  st_log_P := (st_log_P st)[st_t st := Some lp] \<rparr>)))))))"

definition read_slot :: "real option list \<Rightarrow> nat \<Rightarrow> failure + real" where
  "read_slot xs i = (case xs ! i of None \<Rightarrow> Inl Uninitialised | Some x \<Rightarrow> Inr x)"

text \<open>Lines 264 to 266: \<open>if t > 1: diff_log_P = log_P[t] - log_P[t-1]\<close>, then \<open>t += 1\<close>.\<close>

definition increment :: "em_state \<Rightarrow> failure + em_state" where
  "increment st =
     (if 1 < st_t st
      then and_then (read_slot (st_log_P st) (st_t st))
           (\<lambda>a. and_then (read_slot (st_log_P st) (st_t st - 1))
           (\<lambda>b. Inr (st \<lparr> st_diff_log_P := a - b, st_t := st_t st + 1 \<rparr>)))
      else Inr (st \<lparr> st_t := st_t st + 1 \<rparr>))"

text \<open>Line 159: \<open>while t < (n_iter_EM - 1) and diff_log_P > 0\<close>.\<close>

function em_loop :: "nat list \<Rightarrow> int list \<Rightarrow> int \<Rightarrow> int \<Rightarrow> em_state \<Rightarrow> failure + em_state" where
  "em_loop bin_spike_count bin_history_spike_count n_iter_EM n_iter_newton_ralphson st =
     (if int (st_t st) < n_iter_EM - 1 \<and> 0 < st_diff_log_P st
      then (case em_body bin_spike_count bin_history_spike_count n_iter_newton_ralphson st of
              Inl e \<Rightarrow> Inl e
            | Inr st' \<Rightarrow>
                (case increment st' of
                   Inl e \<Rightarrow> Inl e
                 | Inr st'' \<Rightarrow>
                     em_loop bin_spike_count bin_history_spike_count n_iter_EM
                       n_iter_newton_ralphson st''))
      else Inr st)"
  by pat_completeness auto
termination
proof (relation "measure (\<lambda>(cs, hs, n, m, st). nat (n - 1 - int (st_t st)))")
  show "wf (measure (\<lambda>(cs, hs, n, m, st). nat (n - 1 - int (st_t st))))"
    by simp
next
  fix cs :: "nat list" and hs :: "int list" and n m :: int and st st' st'' :: em_state
  assume c: "int (st_t st) < n - 1 \<and> 0 < st_diff_log_P st"
    and b: "em_body cs hs m st = Inr st'" and i: "increment st' = Inr st''"
  from b have "st_t st' = st_t st"
    by (auto simp: em_body_def and_then_def Let_def split: sum.splits prod.splits)
  moreover from i have "st_t st'' = st_t st' + 1"
    by (auto simp: increment_def and_then_def split: sum.splits if_splits)
  ultimately show "((cs, hs, n, m, st''), (cs, hs, n, m, st))
      \<in> measure (\<lambda>(cs, hs, n, m, st). nat (n - 1 - int (st_t st)))"
    using c by simp
qed

section \<open>The Viterbi decoder\<close>

text \<open>
  Lines 275 to 302. \<open>np.argmax\<close> returns the first index of the maximum: of two
  entries, index 1 only when the second is strictly larger.
\<close>

definition argmax2 :: "vec2 \<Rightarrow> nat" where
  "argmax2 v = (if fst v < snd v then 1 else 0)"

definition max2 :: "vec2 \<Rightarrow> real" where
  "max2 v = max (fst v) (snd v)"

definition sel :: "'a \<times> 'a \<Rightarrow> nat \<Rightarrow> 'a" where
  \<comment> \<open>entry \<open>i\<close> of a column, for a state \<open>i\<close> of \<open>STATES = [0, 1]\<close>\<close>
  "sel v i = (if i = 0 then fst v else snd v)"

definition vlog :: "vec2 \<Rightarrow> failure + vec2" where
  \<comment> \<open>\<open>np.log(v + EPS)\<close>\<close>
  "vlog v = and_then (flog (fst v + EPS)) (\<lambda>a. and_then (flog (snd v + EPS)) (\<lambda>b. Inr (a, b)))"

definition mlog :: "mat2 \<Rightarrow> failure + mat2" where
  "mlog M = and_then (vlog (fst M)) (\<lambda>r0. and_then (vlog (snd M)) (\<lambda>r1. Inr (r0, r1)))"

fun tlog :: "vec2 list \<Rightarrow> failure + vec2 list" where
  "tlog [] = Inr []"
| "tlog (v # vs) = and_then (vlog v) (\<lambda>l. and_then (tlog vs) (\<lambda>ls. Inr (l # ls)))"

text \<open>
  Lines 287 to 296: \<open>temp[j, i] = delta[i, t-1] + logA[i, j]\<close> (the transpose), the
  argmax and the max are taken along \<open>i\<close>.
\<close>

fun viterbi_loop ::
  "mat2 \<Rightarrow> vec2 list \<Rightarrow> nat list \<Rightarrow> vec2 list \<times> (nat \<times> nat) list \<Rightarrow> vec2 list \<times> (nat \<times> nat) list"
where
  "viterbi_loop logA logB [] (delta, psi) = (delta, psi)"
| "viterbi_loop logA logB (t # ts) (delta, psi) =
     (let d = delta ! (t - 1);
          temp = ((fst d + fst (fst logA), snd d + fst (snd logA)),
                  (fst d + snd (fst logA), snd d + snd (snd logA)))
      in viterbi_loop logA logB ts
           (delta[t := (max2 (fst temp) + fst (logB ! t), max2 (snd temp) + snd (logB ! t))],
            psi[t := (argmax2 (fst temp), argmax2 (snd temp))]))"

text \<open>Lines 301 and 302, for \<open>t = nbins - 2\<close> down to 0.\<close>

fun backtrack :: "(nat \<times> nat) list \<Rightarrow> nat list \<Rightarrow> nat list \<Rightarrow> nat list" where
  "backtrack psi [] S = S"
| "backtrack psi (t # ts) S = backtrack psi ts (S[t := sel (psi ! (t + 1)) (S ! (t + 1))])"

text \<open>
  The decoder on a non-empty table (\<open>nbins > 0\<close>); it returns \<open>delta\<close>, \<open>psi\<close>, the path
  \<open>S\<close> and \<open>log_L\<close>.
\<close>

definition viterbi ::
  "vec2 \<Rightarrow> mat2 \<Rightarrow> vec2 list \<Rightarrow> failure + vec2 list \<times> (nat \<times> nat) list \<times> nat list \<times> real"
where
  "viterbi p0 A B =
     (let nbins = length B
      in and_then (vlog p0)
         (\<lambda>log_P0. and_then (mlog A)
         (\<lambda>logA. and_then (tlog B)
         (\<lambda>logB.
            let delta0 = (replicate nbins (0, 0))[0 := vadd log_P0 (logB ! 0)];
                psi0 = replicate nbins (0, 0);
                (delta, psi) = viterbi_loop logA logB [1..<nbins] (delta0, psi0);
                S0 = (replicate nbins 0)[nbins - 1 := argmax2 (delta ! (nbins - 1))];
                log_L = sel (delta ! (nbins - 1)) (S0 ! (nbins - 1)) / real nbins;
                S = backtrack psi (rev [0..<nbins - 1]) S0
            in Inr (delta, psi, S, log_L)))))"

section \<open>\<open>_run_hmmem\<close>\<close>

text \<open>The ten values of the \<open>return\<close> of line 308.\<close>

record hmmem_result =
  ret_S :: "nat list"
  ret_prob_S :: "vec2 list"
  ret_alphaa :: real
  ret_betaa :: real
  ret_mu :: real
  ret_A :: mat2
  ret_B :: "vec2 list"
  ret_p0 :: vec2
  ret_log_L :: real
  ret_log_P :: "real option list"

text \<open>
  Lines 270 to 308, after the loop: \<open>prob_S = gamma\<close>, \<open>p0 = gamma[:, 0:1]\<close>, the
  decoder, \<open>p0 = np.exp(p0)\<close>. On an empty table the slice \<open>gamma[:, 0:1]\<close> is empty,
  and line 299 raises on \<open>delta[:, -1]\<close>.
\<close>

definition decode :: "em_state \<Rightarrow> failure + hmmem_result" where
  "decode st =
     (if length (st_B st) = 0 then and_then (mlog (st_A st)) (\<lambda>logA. Inl IndexError)
      else let p0 = st_gamma st ! 0
           in and_then (viterbi p0 (st_A st) (st_B st))
                (\<lambda>(delta, psi, S, log_L).
                   Inr \<lparr> ret_S = S, ret_prob_S = st_gamma st,
                         ret_alphaa = st_alphaa st, ret_betaa = st_betaa st, ret_mu = st_mu st,
                         ret_A = st_A st, ret_B = st_B st,
                         ret_p0 = (exp (fst p0), exp (snd p0)),
                         ret_log_L = log_L, ret_log_P = st_log_P st \<rparr>))"

text \<open>
  Lines 104 to 159: the parameter checks, the initial values and the loop. The
  arguments are the row of counts, the row of history counts (both of the one row the
  source asserts), \<open>init_A\<close>, the three scalars and the two iteration counts. The checks
  on the number of rows and on \<open>init_betaa\<close> being a float hold by the types chosen
  here. \<open>np.empty((n_iter_EM,))\<close> raises on a negative \<open>n_iter_EM\<close>.
\<close>

definition run_em ::
  "nat list \<Rightarrow> int list \<Rightarrow> mat2 \<Rightarrow> real \<Rightarrow> real \<Rightarrow> real \<Rightarrow> int \<Rightarrow> int \<Rightarrow> failure + em_state"
where
  "run_em bin_spike_count bin_history_spike_count init_A init_alphaa init_betaa init_mu
       n_iter_EM n_iter_newton_ralphson =
     (if length bin_spike_count \<noteq> length bin_history_spike_count then Inl AssertionError
      else if n_iter_EM < 0 then Inl NegativeDimension
      else em_loop bin_spike_count bin_history_spike_count n_iter_EM n_iter_newton_ralphson
             (init_state bin_spike_count bin_history_spike_count init_A init_alphaa init_betaa
                init_mu n_iter_EM))"

definition priv_run_hmmem ::
  "nat list \<Rightarrow> int list \<Rightarrow> mat2 \<Rightarrow> real \<Rightarrow> real \<Rightarrow> real \<Rightarrow> int \<Rightarrow> int \<Rightarrow> failure + hmmem_result"
where
  "priv_run_hmmem bin_spike_count bin_history_spike_count init_A init_alphaa init_betaa init_mu
       n_iter_EM n_iter_newton_ralphson =
     and_then (run_em bin_spike_count bin_history_spike_count init_A init_alphaa init_betaa
                 init_mu n_iter_EM n_iter_newton_ralphson) decode"

text \<open>
  \<open>run_hmmem\<close> from its binned counts on (lines 56 to 80); merging the trains and
  \<open>np.histogram\<close> are outside this development.
\<close>

definition run_hmmem ::
  "nat list \<Rightarrow> int \<Rightarrow> mat2 \<Rightarrow> real \<Rightarrow> real \<Rightarrow> real \<Rightarrow> int \<Rightarrow> int \<Rightarrow> failure + hmmem_result"
where
  "run_hmmem bin_spike_count history_window_nbins init_A init_alphaa init_betaa init_mu
       n_iter_EM n_iter_newton_ralphson =
     and_then (bin_history history_window_nbins bin_spike_count)
       (\<lambda>bin_history_spike_count.
          priv_run_hmmem bin_spike_count bin_history_spike_count init_A init_alphaa init_betaa
            init_mu n_iter_EM n_iter_newton_ralphson)"

section \<open>Auxiliary definitions for the proofs\<close>

text \<open>One step of the decoder's loop, with the max and the argmax written out.\<close>

definition vit_step :: "mat2 \<Rightarrow> vec2 list \<Rightarrow> vec2 \<Rightarrow> nat \<Rightarrow> vec2" where
  "vit_step logA logB d t =
     (max (fst d + fst (fst logA)) (snd d + fst (snd logA)) + fst (logB ! t),
      max (fst d + snd (fst logA)) (snd d + snd (snd logA)) + snd (logB ! t))"

definition vit_arg :: "mat2 \<Rightarrow> vec2 \<Rightarrow> nat \<times> nat" where
  "vit_arg logA d =
     (if fst d + fst (fst logA) < snd d + fst (snd logA) then 1 else 0,
      if fst d + snd (fst logA) < snd d + snd (snd logA) then 1 else 0)"

text \<open>
  What holds of the counter, of \<open>diff_log_P\<close> and of the trace \<open>log_P\<close> each time the
  loop test of line 159 is reached.
\<close>

definition trace_inv :: "int \<Rightarrow> em_state \<Rightarrow> bool" where
  "trace_inv n st \<longleftrightarrow>
     length (st_log_P st) = nat n
     \<and> int (st_t st) \<le> max 0 (n - 1)
     \<and> (\<forall>i<st_t st. st_log_P st ! i \<noteq> None)
     \<and> (\<forall>i. st_t st \<le> i \<and> i < nat n \<longrightarrow> st_log_P st ! i = None)
     \<and> (if 3 \<le> st_t st
         then \<exists>a b. st_log_P st ! (st_t st - 1) = Some a \<and> st_log_P st ! (st_t st - 2) = Some b
                 \<and> st_diff_log_P st = a - b
         else st_diff_log_P st = 10)
     \<and> (\<forall>j. 3 \<le> j \<and> j < st_t st \<longrightarrow>
           (\<exists>a b. st_log_P st ! (j - 1) = Some a \<and> st_log_P st ! (j - 2) = Some b \<and> 0 < a - b))"

text \<open>
  A run that can be followed by hand: two bins without spikes, all four transition
  probabilities \<open>1/2\<close>, \<open>mu = alphaa = betaa = 0\<close> and no Newton update
  (\<open>n_iter_newton_ralphson = 0\<close>). Every pass through the loop leaves the state below,
  up to the counter, \<open>diff_log_P\<close> and the trace; every pass computes the
  log-likelihood \<open>sym_L\<close>.
\<close>

definition sym_L :: real where
  "sym_L = 2 * ln (exp (- 1) + EPS)"

definition sym_state :: "nat \<Rightarrow> real \<Rightarrow> real option list \<Rightarrow> em_state" where
  "sym_state t d lp =
     \<lparr> st_A = ((1/2, 1/2), (1/2, 1/2)), st_alphaa = 0, st_betaa = 0, st_mu = 0,
       st_B = [(exp (- 1), exp (- 1)), (exp (- 1), exp (- 1))],
       st_p0 = (1/2, 1/2),
       st_alpha = [(1/2, 1/2), (1/2, 1/2)],
       st_beta = [(exp 1, exp 1), (exp 1, exp 1)],
       st_gamma = [(1/2, 1/2), (0, 0)],
       st_zeta = [((1/4, 1/4), (1/4, 1/4)), ((0, 0), (0, 0))],
       st_t = t, st_log_P = lp, st_diff_log_P = d \<rparr>"

definition sym_trace :: "real option list" where
  "sym_trace = [Some sym_L, Some sym_L, Some sym_L, None, None, None, None, None, None, None]"


section \<open>The Newton solver as the specification words it\<close>

text \<open>
  Section 4.3 of the specification: for a parameter \<open>\<theta>\<close> with its partners held fixed,
  \<open>g(\<theta>) = \<Sum>\<^sub>k w[k] * exp(lin(\<theta>, k)) - target\<close> with the target
  \<open>\<Sum>\<^sub>k w[k] * count[k]\<close>, \<open>g'(\<theta>) = \<Sum>\<^sub>k w[k]\<^sup>2 * exp(lin(\<theta>, k))\<close>, and a fixed number of
  updates \<open>\<theta> \<leftarrow> \<theta> - g(\<theta>) / g'(\<theta>)\<close> from the previous value plus a constant offset:
  \<open>mu\<close> first (weights 1, offset 0.001), then \<open>alphaa\<close> with the new \<open>mu\<close> (weights
  \<open>Z[k]\<close>, offset 0.002), then \<open>betaa\<close> with the new \<open>mu\<close> and \<open>alphaa\<close> (weights
  \<open>history[k]\<close>, offset 0.003).
\<close>

definition spec_g :: "nat \<Rightarrow> (nat \<Rightarrow> real) \<Rightarrow> (real \<Rightarrow> nat \<Rightarrow> real) \<Rightarrow> nat list \<Rightarrow> real \<Rightarrow> real" where
  "spec_g n w lin cs \<theta> = (\<Sum>k<n. w k * exp (lin \<theta> k)) - (\<Sum>k<n. w k * real (cs ! k))"

definition spec_gprime :: "nat \<Rightarrow> (nat \<Rightarrow> real) \<Rightarrow> (real \<Rightarrow> nat \<Rightarrow> real) \<Rightarrow> real \<Rightarrow> real" where
  "spec_gprime n w lin \<theta> = (\<Sum>k<n. (w k)\<^sup>2 * exp (lin \<theta> k))"

fun newton_iterate :: "(real \<Rightarrow> real) \<Rightarrow> (real \<Rightarrow> real) \<Rightarrow> nat \<Rightarrow> real \<Rightarrow> failure + real" where
  "newton_iterate g gprime 0 \<theta> = Inr \<theta>"
| "newton_iterate g gprime (Suc n) \<theta> =
     (if gprime \<theta> = 0 then Inl NonFinite
      else newton_iterate g gprime n (\<theta> - g \<theta> / gprime \<theta>))"

definition newton_ralphson_spec ::
  "nat list \<Rightarrow> real list \<Rightarrow> int list \<Rightarrow> real \<Rightarrow> real \<Rightarrow> real \<Rightarrow> int \<Rightarrow> failure + real \<times> real \<times> real"
where
  "newton_ralphson_spec cs Z hs prev_alphaa prev_betaa prev_mu n_iter =
     (let n = length cs;
          lin_mu = (\<lambda>\<theta> k. \<theta> + prev_alphaa * Z ! k + prev_betaa * real_of_int (hs ! k))
      in and_then (newton_iterate (spec_g n (\<lambda>k. 1) lin_mu cs) (spec_gprime n (\<lambda>k. 1) lin_mu)
                     (nat n_iter) (prev_mu + 0.001))
         (\<lambda>mu.
            let lin_alphaa = (\<lambda>\<theta> k. mu + \<theta> * Z ! k + prev_betaa * real_of_int (hs ! k))
            in and_then (newton_iterate (spec_g n (\<lambda>k. Z ! k) lin_alphaa cs)
                           (spec_gprime n (\<lambda>k. Z ! k) lin_alphaa) (nat n_iter) (prev_alphaa + 0.002))
         (\<lambda>alphaa.
            let lin_betaa = (\<lambda>\<theta> k. mu + alphaa * Z ! k + \<theta> * real_of_int (hs ! k))
            in and_then (newton_iterate (spec_g n (\<lambda>k. real_of_int (hs ! k)) lin_betaa cs)
                           (spec_gprime n (\<lambda>k. real_of_int (hs ! k)) lin_betaa) (nat n_iter)
                           (prev_betaa + 0.003))
         (\<lambda>betaa. Inr (alphaa, betaa, mu)))))"

section \<open>States of the loop\<close>

text \<open>
  The states in which the loop test of line 159 can be reached from a starting state:
  the starting state, and each state that one pass (lines 161 to 266) produces from
  such a state. The test itself is left out, so the states of every run, whatever
  \<open>n_iter_EM\<close> is, are among them.
\<close>

inductive em_reach :: "nat list \<Rightarrow> int list \<Rightarrow> int \<Rightarrow> em_state \<Rightarrow> em_state \<Rightarrow> bool"
  for bin_spike_count bin_history_spike_count n_iter_newton_ralphson st0
where
  start: "em_reach bin_spike_count bin_history_spike_count n_iter_newton_ralphson st0 st0"
| pass: "em_reach bin_spike_count bin_history_spike_count n_iter_newton_ralphson st0 st
         \<Longrightarrow> em_body bin_spike_count bin_history_spike_count n_iter_newton_ralphson st = Inr st1
         \<Longrightarrow> increment st1 = Inr st2
         \<Longrightarrow> em_reach bin_spike_count bin_history_spike_count n_iter_newton_ralphson st0 st2"

definition nonneg2 :: "vec2 \<Rightarrow> bool" where
  "nonneg2 v \<longleftrightarrow> 0 \<le> fst v \<and> 0 \<le> snd v"

definition nonneg_mat :: "mat2 \<Rightarrow> bool" where
  "nonneg_mat M \<longleftrightarrow> nonneg2 (fst M) \<and> nonneg2 (snd M)"

text \<open>
  What the tables satisfy each time the loop test is reached: they have \<open>n\<close> columns,
  the column and the block of the last bin still hold their initial zeros, and the
  probabilities that the next E-step reads are not negative.
\<close>

definition tables_inv :: "nat \<Rightarrow> em_state \<Rightarrow> bool" where
  "tables_inv n st \<longleftrightarrow>
     length (st_alpha st) = n \<and> length (st_beta st) = n \<and> length (st_gamma st) = n
     \<and> length (st_zeta st) = n \<and> length (st_B st) = n
     \<and> (0 < n \<longrightarrow> st_gamma st ! (n - 1) = (0, 0) \<and> st_zeta st ! (n - 1) = ((0, 0), (0, 0)))"


section \<open>Basic facts about the model\<close>

declare em_loop.simps [simp del]


lemma EPS_pos: "0 < EPS"
  by (simp add: EPS_def)

lemma poisson_pos: "0 < lam \<Longrightarrow> 0 < poisson lam c"
  by (simp add: poisson_def)

lemma emission_length: "length (emission mu a b cs hs) = length cs"
  by (simp add: emission_def)

lemma emission_pos:
  "v \<in> set (emission mu a b cs hs) \<Longrightarrow> 0 < fst v \<and> 0 < snd v"
  by (auto simp: emission_def bin_lambda_def Let_def poisson_pos)

lemma vlog_Inr: "0 < fst v + EPS \<Longrightarrow> 0 < snd v + EPS \<Longrightarrow> vlog v = Inr (ln (fst v + EPS), ln (snd v + EPS))"
  by (simp add: vlog_def flog_def and_then_def)

lemma mlog_Inr:
  "0 < fst (fst M) + EPS \<Longrightarrow> 0 < snd (fst M) + EPS \<Longrightarrow> 0 < fst (snd M) + EPS \<Longrightarrow> 0 < snd (snd M) + EPS
   \<Longrightarrow> mlog M = Inr ((ln (fst (fst M) + EPS), ln (snd (fst M) + EPS)), (ln (fst (snd M) + EPS), ln (snd (snd M) + EPS)))"
  by (simp add: mlog_def vlog_Inr and_then_def)

lemma tlog_Inr:
  "\<forall>v\<in>set B. 0 < fst v + EPS \<and> 0 < snd v + EPS \<Longrightarrow>
   tlog B = Inr (map (\<lambda>v. (ln (fst v + EPS), ln (snd v + EPS))) B)"
  by (induction B) (simp_all add: vlog_Inr and_then_def)

lemma viterbi_succeeds:
  assumes "0 < fst p0 + EPS" "0 < snd p0 + EPS"
    and "0 < fst (fst A) + EPS" "0 < snd (fst A) + EPS" "0 < fst (snd A) + EPS" "0 < snd (snd A) + EPS"
    and "\<forall>v\<in>set B. 0 < fst v + EPS \<and> 0 < snd v + EPS"
  shows "\<exists>r. viterbi p0 A B = Inr r"
  using assms by (simp add: viterbi_def vlog_Inr mlog_Inr tlog_Inr and_then_def Let_def split: prod.splits)

lemma em_loop_stop:
  "\<not> (int (st_t st) < n - 1 \<and> 0 < st_diff_log_P st) \<Longrightarrow> em_loop cs hs n m st = Inr st"
  by (subst em_loop.simps) auto

lemma run_em_small:
  assumes "n \<le> 1" "run_em cs hs A a b mu n m = Inr st"
  shows "st = init_state cs hs A a b mu n"
proof -
  have "\<not> (int (st_t (init_state cs hs A a b mu n)) < n - 1 \<and> 0 < st_diff_log_P (init_state cs hs A a b mu n))"
    using assms(1) by (simp add: init_state_def Let_def)
  then have "em_loop cs hs n m (init_state cs hs A a b mu n) = Inr (init_state cs hs A a b mu n)"
    by (rule em_loop_stop)
  with assms(2) show ?thesis
    by (auto simp: run_em_def split: if_splits)
qed

lemma decode_succeeds:
  assumes "st_B st \<noteq> []" "length (st_gamma st) = length (st_B st)"
    and "0 \<le> fst (st_gamma st ! 0)" "0 \<le> snd (st_gamma st ! 0)"
    and "0 < fst (fst (st_A st)) + EPS" "0 < snd (fst (st_A st)) + EPS"
        "0 < fst (snd (st_A st)) + EPS" "0 < snd (snd (st_A st)) + EPS"
    and "\<forall>v\<in>set (st_B st). 0 < fst v \<and> 0 < snd v"
  shows "\<exists>res. decode st = Inr res"
proof -
  have "\<forall>v\<in>set (st_B st). 0 < fst v + EPS \<and> 0 < snd v + EPS"
    using assms(9) EPS_pos by (auto intro: add_pos_pos)
  moreover have "0 < fst (st_gamma st ! 0) + EPS" "0 < snd (st_gamma st ! 0) + EPS"
    using assms(3,4) EPS_pos by (auto intro: add_nonneg_pos)
  ultimately obtain r where "viterbi (st_gamma st ! 0) (st_A st) (st_B st) = Inr r"
    using viterbi_succeeds[of "st_gamma st ! 0" "st_A st" "st_B st"] assms(5-8) by blast
  then show ?thesis using assms(1)
    by (cases r) (auto simp: decode_def and_then_def Let_def)
qed

lemma no_iteration_succeeds:
  assumes "0 \<le> n" "n \<le> 1" "length cs = length hs" "cs \<noteq> []"
    and "0 < fst (fst A) + EPS" "0 < snd (fst A) + EPS" "0 < fst (snd A) + EPS" "0 < snd (snd A) + EPS"
  shows "\<exists>res. priv_run_hmmem cs hs A a b mu n m = Inr res"
proof -
  let ?st = "init_state cs hs A a b mu n"
  have "\<not> (int (st_t ?st) < n - 1 \<and> 0 < st_diff_log_P ?st)"
    using assms(2) by (simp add: init_state_def Let_def)
  then have "em_loop cs hs n m ?st = Inr ?st" by (rule em_loop_stop)
  then have r: "run_em cs hs A a b mu n m = Inr ?st"
    using assms(1,3) by (simp add: run_em_def)
  have "emission mu a b cs hs \<noteq> []"
    using assms(4) emission_length[of mu a b cs hs] by (metis length_0_conv)
  then have "\<exists>res. decode ?st = Inr res"
    using assms(4-8)
    by (intro decode_succeeds) (auto simp: init_state_def Let_def emission_length dest: emission_pos)
  with r show ?thesis by (simp add: priv_run_hmmem_def and_then_def)
qed

section \<open>Properties of the history sequence\<close>

lemma drop_take_nth_upt:
  "b \<le> length xs \<Longrightarrow> drop a (take b xs) = map ((!) xs) [a..<b]"
  by (rule nth_equalityI) auto

lemma sum_list_drop_take:
  "b \<le> length xs \<Longrightarrow> sum_list (drop a (take b xs)) = (\<Sum>j = a..<b. xs ! j)"
  by (simp add: drop_take_nth_upt interv_sum_list_conv_sum_set_nat)

lemma bin_history_nth:
  assumes "0 \<le> W" "bin_history W cs = Inr h"
  shows "length h = length cs"
    and "k < length cs \<Longrightarrow> h ! k = (\<Sum>j = k - min k (nat W)..<k. int (cs ! j))"
proof -
  from assms have h: "h = map2 (\<lambda>s c. s - int c)
      (map (\<lambda>k. sum_list (drop (Suc k - nat (W + 1)) (take (Suc k) (map int cs)))) [0..<length cs]) cs"
    by (auto simp: bin_history_def rolling_sum_def and_then_def split: if_splits)
  show "length h = length cs" by (simp add: h)
  assume k: "k < length cs"
  have eq: "Suc k - nat (W + 1) = k - min k (nat W)"
    using assms(1) by (auto simp: min_def nat_add_distrib)
  have "h ! k = sum_list (drop (Suc k - nat (W + 1)) (take (Suc k) (map int cs))) - int (cs ! k)"
    using k by (simp add: h)
  also have "sum_list (drop (Suc k - nat (W + 1)) (take (Suc k) (map int cs)))
      = (\<Sum>j = k - min k (nat W)..<Suc k. int (cs ! j))"
    using k by (simp add: sum_list_drop_take eq)
  also have "\<dots> = (\<Sum>j = k - min k (nat W)..<k. int (cs ! j)) + int (cs ! k)"
    by (subst sum.atLeastLessThan_Suc) simp_all
  finally show "h ! k = (\<Sum>j = k - min k (nat W)..<k. int (cs ! j))" by simp
qed

text \<open>
  Claim C7. For a window \<open>W \<ge> 0\<close> the history sequence exists and has the length of the
  counts; its entry \<open>k\<close> is the sum of the counts of the \<open>min k W\<close> bins just before bin
  \<open>k\<close>, bin \<open>k\<close> excluded. So counts that are all zero give a history that is all zero,
  and counts that all equal \<open>c\<close> give \<open>W * c\<close> at the indices \<open>k \<ge> W\<close> and \<open>k * c\<close> at the
  indices \<open>k < W\<close>.
\<close>

theorem history_window:
  assumes "0 \<le> W"
  shows "\<exists>h. bin_history W cs = Inr h \<and> length h = length cs
     \<and> (\<forall>k<length cs. h ! k = (\<Sum>j = k - min k (nat W)..<k. int (cs ! j)))
     \<and> ((\<forall>j<length cs. cs ! j = 0) \<longrightarrow> (\<forall>k<length cs. h ! k = 0))
     \<and> (\<forall>c. (\<forall>j<length cs. cs ! j = c) \<longrightarrow>
           (\<forall>k<length cs. h ! k = (if nat W \<le> k then W * int c else int k * int c)))"
proof -
  from assms obtain h where h: "bin_history W cs = Inr h"
    by (auto simp: bin_history_def rolling_sum_def and_then_def)
  note n = bin_history_nth[OF assms h]
  have const: "h ! k = (if nat W \<le> k then W * int c else int k * int c)"
    if "\<forall>j<length cs. cs ! j = c" "k < length cs" for c k
  proof -
    have "h ! k = (\<Sum>j = k - min k (nat W)..<k. int (cs ! j))" using n(2) that(2) by simp
    also have "\<dots> = (\<Sum>j = k - min k (nat W)..<k. int c)"
      using that by (intro sum.cong) auto
    also have "\<dots> = int (min k (nat W)) * int c" by simp
    also have "\<dots> = (if nat W \<le> k then W * int c else int k * int c)"
      using assms by (auto simp: min_def)
    finally show ?thesis .
  qed
  have zero: "h ! k = 0" if "\<forall>j<length cs. cs ! j = 0" "k < length cs" for k
    using const[of 0 k] that by simp
  have big: "length h = length cs
     \<and> (\<forall>k<length cs. h ! k = (\<Sum>j = k - min k (nat W)..<k. int (cs ! j)))
     \<and> ((\<forall>j<length cs. cs ! j = 0) \<longrightarrow> (\<forall>k<length cs. h ! k = 0))
     \<and> (\<forall>c. (\<forall>j<length cs. cs ! j = c) \<longrightarrow>
           (\<forall>k<length cs. h ! k = (if nat W \<le> k then W * int c else int k * int c)))"
    using n const zero by (intro conjI allI impI) simp_all
  show ?thesis by (rule exI[of _ h]) (rule conjI[OF h big])
qed

theorem history_window_witness:
  "(0::int) \<le> 2 \<and> bin_history 2 [3, 3, 3, 3] = Inr [0, 3, 6, 6]
    \<and> bin_history 2 [0, 0, 0] = Inr [0, 0, 0]
    \<and> bin_history 2 [1, 2, 3, 4] = Inr [0, 1, 3, 5]"
  using history_window [of 2 "[3, 3, 3, 3]"]
  by (simp add: bin_history_def rolling_sum_def and_then_def upt_rec)

section \<open>A run without a pass through the loop\<close>

text \<open>
  Claim C10. When \<open>n_iter_EM \<le> 1\<close> and \<open>_run_hmmem\<close> returns, the loop has ended in
  its initial state, with the counter at 0: the returned \<open>prob_S\<close> is the \<open>2 \<times> n\<close> table
  of zeros, \<open>A\<close> is \<open>init_A\<close>, \<open>alphaa\<close>, \<open>betaa\<close> and \<open>mu\<close> are the initial
  values, \<open>B\<close> is the emission table of the initial parameters, and the returned path
  and \<open>log_L\<close> are those of the decoder run on that table, on \<open>init_A\<close> and on the zero
  column \<open>gamma[:, 0]\<close>.
\<close>

theorem no_iteration_result:
  assumes "n_iter_EM \<le> 1"
    and "priv_run_hmmem cs hs init_A init_alphaa init_betaa init_mu n_iter_EM n_nr = Inr res"
  shows "run_em cs hs init_A init_alphaa init_betaa init_mu n_iter_EM n_nr
           = Inr (init_state cs hs init_A init_alphaa init_betaa init_mu n_iter_EM)
       \<and> st_t (init_state cs hs init_A init_alphaa init_betaa init_mu n_iter_EM) = 0
       \<and> ret_prob_S res = replicate (length cs) (0, 0)
       \<and> ret_A res = init_A
       \<and> ret_alphaa res = init_alphaa \<and> ret_betaa res = init_betaa \<and> ret_mu res = init_mu
       \<and> ret_B res = emission init_mu init_alphaa init_betaa cs hs
       \<and> (\<exists>delta psi. viterbi (0, 0) init_A (emission init_mu init_alphaa init_betaa cs hs)
              = Inr (delta, psi, ret_S res, ret_log_L res))"
proof -
  from assms(2) obtain st where st: "run_em cs hs init_A init_alphaa init_betaa init_mu n_iter_EM n_nr = Inr st"
    and d: "decode st = Inr res"
    by (auto simp: priv_run_hmmem_def and_then_def split: sum.splits)
  have eq: "st = init_state cs hs init_A init_alphaa init_betaa init_mu n_iter_EM"
    using run_em_small[OF assms(1) st] .
  from d have ne: "length cs \<noteq> 0"
    by (auto simp: decode_def eq init_state_def Let_def emission_length and_then_def split: sum.splits if_splits)
  from d ne show ?thesis using st
    by (auto simp: decode_def eq init_state_def Let_def emission_length and_then_def split: sum.splits if_splits prod.splits)
qed

theorem no_iteration_result_witness:
  "\<exists>res. priv_run_hmmem [0, 1] [0, 0] ((0.1, 0.9), (0.05, 0.95)) 1 0 (- 0.5) 1 100 = Inr res
     \<and> ret_prob_S res = [(0, 0), (0, 0)] \<and> ret_A res = ((0.1, 0.9), (0.05, 0.95))
     \<and> ret_alphaa res = 1 \<and> ret_betaa res = 0 \<and> ret_mu res = - 0.5"
proof -
  obtain res where r: "priv_run_hmmem [0, 1] [0, 0] ((0.1, 0.9), (0.05, 0.95)) 1 0 (- 0.5) 1 100 = Inr res"
    using no_iteration_succeeds[of 1 "[0, 1]" "[0, 0]" "((0.1, 0.9), (0.05, 0.95))" 1 0 "- 0.5" 100]
    by (auto simp: EPS_def)
  have "(1::int) \<le> 1" by simp
  from no_iteration_result[OF this r] r show ?thesis
    by (intro exI[of _ res]) (simp add: numeral_2_eq_2)
qed

section \<open>The decoder\<close>

lemma viterbi_loop_step:
  "viterbi_loop logA logB (t # ts) (delta, psi) =
     viterbi_loop logA logB ts
       (delta[t := vit_step logA logB (delta ! (t - 1)) t], psi[t := vit_arg logA (delta ! (t - 1))])"
  by (simp add: vit_step_def vit_arg_def Let_def max2_def argmax2_def)

lemma viterbi_loop_frame:
  "viterbi_loop logA logB [a..<b] (d, p) = (d', p') \<Longrightarrow>
     length d' = length d \<and> length p' = length p \<and> (\<forall>i<a. d' ! i = d ! i \<and> p' ! i = p ! i)"
proof (induction "b - a" arbitrary: a d p)
  case 0
  then show ?case by simp
next
  case (Suc n)
  then have ab: "a < b" by simp
  from Suc.prems have
    "viterbi_loop logA logB [Suc a..<b]
       (d[a := vit_step logA logB (d ! (a - 1)) a], p[a := vit_arg logA (d ! (a - 1))]) = (d', p')"
    by (simp only: upt_conv_Cons[OF ab] viterbi_loop_step)
  from Suc.hyps(1)[OF _ this] Suc.hyps(2) show ?case by auto
qed

lemma viterbi_loop_rec:
  assumes "viterbi_loop logA logB [a..<b] (d, p) = (d', p')" "1 \<le> a" "b \<le> length d" "length p = length d"
  shows "\<forall>k. a \<le> k \<and> k < b \<longrightarrow>
           d' ! k = vit_step logA logB (d' ! (k - 1)) k \<and> p' ! k = vit_arg logA (d' ! (k - 1))"
  using assms
proof (induction "b - a" arbitrary: a d p)
  case 0
  then have "b \<le> a" by simp
  then show ?case by (meson leD le_less_trans)
next
  case (Suc n)
  then have ab: "a < b" by simp
  let ?d1 = "d[a := vit_step logA logB (d ! (a - 1)) a]"
  let ?p1 = "p[a := vit_arg logA (d ! (a - 1))]"
  from Suc.prems(1) have run: "viterbi_loop logA logB [Suc a..<b] (?d1, ?p1) = (d', p')"
    by (simp only: upt_conv_Cons[OF ab] viterbi_loop_step)
  have ih: "\<forall>k. Suc a \<le> k \<and> k < b \<longrightarrow>
           d' ! k = vit_step logA logB (d' ! (k - 1)) k \<and> p' ! k = vit_arg logA (d' ! (k - 1))"
    using Suc.hyps(1)[OF _ run] Suc.hyps(2) Suc.prems(3,4) by simp
  from viterbi_loop_frame[OF run] have fr: "\<forall>i<Suc a. d' ! i = ?d1 ! i \<and> p' ! i = ?p1 ! i" by simp
  have a_in: "a < length d" "a < length p" using ab Suc.prems(3,4) by simp_all
  have "d' ! a = vit_step logA logB (d ! (a - 1)) a" "p' ! a = vit_arg logA (d ! (a - 1))"
    using fr a_in by simp_all
  moreover have "d' ! (a - 1) = d ! (a - 1)"
    using fr Suc.prems(2) by (simp add: less_Suc_eq_le)
  ultimately have "d' ! a = vit_step logA logB (d' ! (a - 1)) a \<and> p' ! a = vit_arg logA (d' ! (a - 1))"
    by simp
  with ih show ?case by (metis Suc_leI le_neq_implies_less)
qed

lemma backtrack_props:
  "backtrack psi (rev [0..<m]) S = S' \<Longrightarrow> m < length S \<Longrightarrow>
     length S' = length S \<and> (\<forall>i. m \<le> i \<longrightarrow> S' ! i = S ! i)
       \<and> (\<forall>k<m. S' ! k = sel (psi ! (k + 1)) (S' ! (k + 1)))"
proof (induction m arbitrary: S)
  case 0
  then show ?case by simp
next
  case (Suc m)
  let ?S1 = "S[m := sel (psi ! (m + 1)) (S ! (m + 1))]"
  from Suc.prems have run: "backtrack psi (rev [0..<m]) ?S1 = S'" by simp
  have ih: "length S' = length ?S1 \<and> (\<forall>i. m \<le> i \<longrightarrow> S' ! i = ?S1 ! i)
       \<and> (\<forall>k<m. S' ! k = sel (psi ! (k + 1)) (S' ! (k + 1)))"
    using Suc.IH[OF run] Suc.prems(2) by simp
  then have "S' ! m = sel (psi ! (m + 1)) (S ! (m + 1))" "S' ! (m + 1) = S ! (m + 1)"
    using Suc.prems(2) by simp_all
  then have "S' ! m = sel (psi ! (m + 1)) (S' ! (m + 1))" by simp
  with ih show ?case by (auto simp: less_Suc_eq)
qed

lemma tlog_nth:
  "tlog B = Inr logB \<Longrightarrow> length logB = length B \<and>
     (\<forall>k<length B. logB ! k = (ln (fst (B ! k) + EPS), ln (snd (B ! k) + EPS)))"
proof (induction B arbitrary: logB)
  case Nil
  then show ?case by simp
next
  case (Cons v vs)
  then obtain l ls where l: "vlog v = Inr l" and ls: "tlog vs = Inr ls" and eq: "logB = l # ls"
    by (auto simp: and_then_def split: sum.splits)
  from l have "l = (ln (fst v + EPS), ln (snd v + EPS))"
    by (auto simp: vlog_def flog_def and_then_def split: if_splits)
  with Cons.IH[OF ls] eq show ?case by (auto simp: nth_Cons split: nat.splits)
qed

lemma vlog_val: "vlog v = Inr l \<Longrightarrow> l = (ln (fst v + EPS), ln (snd v + EPS))"
  by (auto simp: vlog_def flog_def and_then_def split: if_splits)

lemma mlog_val:
  "mlog M = Inr L \<Longrightarrow>
     L = ((ln (fst (fst M) + EPS), ln (snd (fst M) + EPS)), (ln (fst (snd M) + EPS), ln (snd (snd M) + EPS)))"
  by (auto simp: mlog_def and_then_def dest!: vlog_val split: sum.splits)

text \<open>
  Claim C6. Whenever the decoder returns on a non-empty table, its tables and results
  obey the log-domain recursion: \<open>delta[:, 0] = log(p0 + EPS) + log(B[:, 0] + EPS)\<close>;
  for \<open>k = 1, \<dots>, n - 1\<close> and each state \<open>j\<close>,
  \<open>delta[j, k] = max_i (delta[i, k-1] + logA[i, j]) + logB[j, k]\<close> and \<open>psi[j, k]\<close> is the
  maximising \<open>i\<close>, state 0 unless state 1 is strictly better; the last state of the
  path is the argmax of \<open>delta[:, n-1]\<close> under the same tie rule; each earlier state
  is \<open>psi[S[k+1], k+1]\<close>; and \<open>log_L = delta[S[n-1], n-1] / n\<close>.
\<close>

theorem viterbi_log_domain:
  assumes "viterbi p0 A B = Inr (delta, psi, S, log_L)" and "B \<noteq> []"
  shows "length delta = length B \<and> length psi = length B \<and> length S = length B
    \<and> delta ! 0 = (ln (fst p0 + EPS) + ln (fst (B ! 0) + EPS), ln (snd p0 + EPS) + ln (snd (B ! 0) + EPS))
    \<and> (\<forall>k. 1 \<le> k \<and> k < length B \<longrightarrow>
          fst (delta ! k) = max (fst (delta ! (k - 1)) + ln (fst (fst A) + EPS))
                                (snd (delta ! (k - 1)) + ln (fst (snd A) + EPS)) + ln (fst (B ! k) + EPS)
        \<and> snd (delta ! k) = max (fst (delta ! (k - 1)) + ln (snd (fst A) + EPS))
                                (snd (delta ! (k - 1)) + ln (snd (snd A) + EPS)) + ln (snd (B ! k) + EPS)
        \<and> fst (psi ! k) = (if fst (delta ! (k - 1)) + ln (fst (fst A) + EPS)
                               < snd (delta ! (k - 1)) + ln (fst (snd A) + EPS) then 1 else 0)
        \<and> snd (psi ! k) = (if fst (delta ! (k - 1)) + ln (snd (fst A) + EPS)
                               < snd (delta ! (k - 1)) + ln (snd (snd A) + EPS) then 1 else 0))
    \<and> S ! (length B - 1) = (if fst (delta ! (length B - 1)) < snd (delta ! (length B - 1)) then 1 else 0)
    \<and> (\<forall>k. k + 1 < length B \<longrightarrow> S ! k = sel (psi ! (k + 1)) (S ! (k + 1)))
    \<and> log_L = sel (delta ! (length B - 1)) (S ! (length B - 1)) / real (length B)"
proof -
  let ?n = "length B"
  from assms(2) have n: "0 < ?n" by simp
  from assms(1) obtain log_P0 logA logB where
    lp: "vlog p0 = Inr log_P0" and la: "mlog A = Inr logA" and lb: "tlog B = Inr logB"
    by (auto simp: viterbi_def and_then_def Let_def split: sum.splits)
  let ?d0 = "(replicate ?n (0, 0))[0 := vadd log_P0 (logB ! 0)]"
  let ?p0 = "replicate ?n (0::nat, 0::nat)"
  let ?S0 = "(replicate ?n (0::nat))[?n - 1 := argmax2 (delta ! (?n - 1))]"
  from assms(1) lp la lb have
    loop: "viterbi_loop logA logB [1..<?n] (?d0, ?p0) = (delta, psi)"
    and S: "S = backtrack psi (rev [0..<?n - 1]) ?S0"
    and L: "log_L = sel (delta ! (?n - 1)) (?S0 ! (?n - 1)) / real ?n"
    by (auto simp: viterbi_def and_then_def Let_def split: prod.splits)
  note fr = viterbi_loop_frame[OF loop]
  have rec: "\<forall>k. 1 \<le> k \<and> k < ?n \<longrightarrow>
           delta ! k = vit_step logA logB (delta ! (k - 1)) k \<and> psi ! k = vit_arg logA (delta ! (k - 1))"
    by (rule viterbi_loop_rec[OF loop]) simp_all
  have bt: "length S = length ?S0 \<and> (\<forall>i. ?n - 1 \<le> i \<longrightarrow> S ! i = ?S0 ! i)
       \<and> (\<forall>k<?n - 1. S ! k = sel (psi ! (k + 1)) (S ! (k + 1)))"
    using n by (intro backtrack_props) (simp_all add: S)
  have lens: "length delta = ?n" "length psi = ?n" "length S = ?n"
    using fr bt by simp_all
  have d0: "delta ! 0 = (ln (fst p0 + EPS) + ln (fst (B ! 0) + EPS), ln (snd p0 + EPS) + ln (snd (B ! 0) + EPS))"
    using fr n tlog_nth[OF lb] vlog_val[OF lp] by (simp add: vadd_def)
  have Slast: "S ! (?n - 1) = (if fst (delta ! (?n - 1)) < snd (delta ! (?n - 1)) then 1 else 0)"
    using bt n by (simp add: argmax2_def)
  have step: "fst (delta ! k) = max (fst (delta ! (k - 1)) + ln (fst (fst A) + EPS))
                                (snd (delta ! (k - 1)) + ln (fst (snd A) + EPS)) + ln (fst (B ! k) + EPS)
        \<and> snd (delta ! k) = max (fst (delta ! (k - 1)) + ln (snd (fst A) + EPS))
                                (snd (delta ! (k - 1)) + ln (snd (snd A) + EPS)) + ln (snd (B ! k) + EPS)
        \<and> fst (psi ! k) = (if fst (delta ! (k - 1)) + ln (fst (fst A) + EPS)
                               < snd (delta ! (k - 1)) + ln (fst (snd A) + EPS) then 1 else 0)
        \<and> snd (psi ! k) = (if fst (delta ! (k - 1)) + ln (snd (fst A) + EPS)
                               < snd (delta ! (k - 1)) + ln (snd (snd A) + EPS) then 1 else 0)"
    if "1 \<le> k \<and> k < ?n" for k
  proof -
    from rec that have "delta ! k = vit_step logA logB (delta ! (k - 1)) k"
      "psi ! k = vit_arg logA (delta ! (k - 1))" by simp_all
    moreover have "logB ! k = (ln (fst (B ! k) + EPS), ln (snd (B ! k) + EPS))"
      using tlog_nth[OF lb] that by simp
    ultimately show ?thesis
      by (simp add: vit_step_def vit_arg_def mlog_val[OF la])
  qed
  have btk: "S ! k = sel (psi ! (k + 1)) (S ! (k + 1))" if "k + 1 < ?n" for k
    using bt that by simp
  have LL: "log_L = sel (delta ! (?n - 1)) (S ! (?n - 1)) / real ?n"
    using L bt by simp
  show ?thesis
    using lens d0 step Slast btk LL by (intro conjI allI impI) simp_all
qed

theorem viterbi_log_domain_witness:
  "\<exists>delta psi L. viterbi (1/2, 1/2) ((1/2, 1/2), (1/2, 1/2)) [(1, 2), (3, 1)] = Inr (delta, psi, [1, 0], L)
     \<and> [(1, 2), (3, 1)] \<noteq> ([] :: vec2 list)
     \<and> length delta = 2 \<and> psi ! 1 = (1, 1) \<and> L = fst (delta ! 1) / 2"
proof -
  have "case viterbi (1/2, 1/2) ((1/2, 1/2), (1/2, 1/2)) [(1, 2), (3, 1)] of
          Inl e \<Rightarrow> False | Inr (delta, psi, S, L) \<Rightarrow> S = [1, 0] \<and> psi ! 1 = (1, 1)"
    by (simp add: viterbi_def vlog_def mlog_def flog_def and_then_def EPS_def Let_def vadd_def
        upt_rec max2_def argmax2_def sel_def numeral_2_eq_2)
  then obtain delta psi L where
    v: "viterbi (1/2, 1/2) ((1/2, 1/2), (1/2, 1/2)) [(1, 2), (3, 1)] = Inr (delta, psi, [1, 0], L)"
    and p: "psi ! 1 = (1, 1)"
    by (auto split: sum.splits)
  have ne: "[(1, 2), (3, 1)] \<noteq> ([] :: vec2 list)" by simp
  from viterbi_log_domain[OF v ne] have "length delta = 2" "L = fst (delta ! 1) / 2"
    by (simp_all add: sel_def)
  with v p show ?thesis by blast
qed

section \<open>The loop and its trace\<close>

lemma em_body_fields:
  "em_body cs hs m st = Inr st' \<Longrightarrow>
     st_t st' = st_t st \<and> st_diff_log_P st' = st_diff_log_P st
     \<and> (\<exists>lp. st_log_P st' = (st_log_P st)[st_t st := Some lp])"
  by (auto simp: em_body_def and_then_def Let_def split: sum.splits prod.splits)

lemma trace_inv_init:
  "0 \<le> n \<Longrightarrow> trace_inv n (init_state cs hs A a b mu n)"
  by (simp add: trace_inv_def init_state_def Let_def)

lemma trace_inv_pass:
  assumes inv: "trace_inv n st"
    and c: "int (st_t st) < n - 1 \<and> 0 < st_diff_log_P st"
    and b: "em_body cs hs m st = Inr st1"
    and i: "increment st1 = Inr st2"
  shows "trace_inv n st2"
proof -
  let ?t = "st_t st"
  let ?lp = "st_log_P st"
  from em_body_fields[OF b] obtain v where
    t1: "st_t st1 = ?t" and d1: "st_diff_log_P st1 = st_diff_log_P st"
    and l1: "st_log_P st1 = ?lp[?t := Some v]" by blast
  from inv have len: "length ?lp = nat n" by (simp add: trace_inv_def)
  from c have tn: "?t < nat n" "Suc ?t \<le> nat (n - 1)" by linarith+
  from inv have wr: "\<forall>i<?t. ?lp ! i \<noteq> None" by (simp add: trace_inv_def)
  have t2: "st_t st2 = Suc ?t" and l2: "st_log_P st2 = ?lp[?t := Some v]"
    using i t1 l1 by (auto simp: increment_def and_then_def split: if_splits sum.splits)
  have d2: "if 1 < ?t then \<exists>b. ?lp ! (?t - 1) = Some b \<and> st_diff_log_P st2 = v - b
            else st_diff_log_P st2 = st_diff_log_P st"
    using i t1 l1 d1 len tn
    by (auto simp: increment_def and_then_def read_slot_def split: if_splits sum.splits option.splits)
  have A1: "length (st_log_P st2) = nat n" using l2 len by simp
  have A2: "int (st_t st2) \<le> max 0 (n - 1)" using t2 tn by linarith
  have A3: "\<forall>i<st_t st2. st_log_P st2 ! i \<noteq> None"
    using t2 l2 wr len tn by (auto simp: less_Suc_eq nth_list_update)
  have A4: "\<forall>i. st_t st2 \<le> i \<and> i < nat n \<longrightarrow> st_log_P st2 ! i = None"
    using inv t2 l2 by (auto simp: trace_inv_def)
  have A5: "if 3 \<le> st_t st2
         then \<exists>a b. st_log_P st2 ! (st_t st2 - 1) = Some a \<and> st_log_P st2 ! (st_t st2 - 2) = Some b
                 \<and> st_diff_log_P st2 = a - b
         else st_diff_log_P st2 = 10"
  proof (cases "1 < ?t")
    case True
    with d2 obtain b where "?lp ! (?t - 1) = Some b" "st_diff_log_P st2 = v - b" by auto
    moreover have "Suc ?t - 2 = ?t - 1" using True by simp
    ultimately show ?thesis using True t2 l2 len tn by (simp add: nth_list_update)
  next
    case False
    then have "\<not> 3 \<le> ?t" by simp
    with inv have "st_diff_log_P st = 10" by (simp add: trace_inv_def)
    with False d2 t2 show ?thesis by simp
  qed
  have A6: "\<exists>a b. st_log_P st2 ! (j - 1) = Some a \<and> st_log_P st2 ! (j - 2) = Some b \<and> 0 < a - b"
    if "3 \<le> j \<and> j < st_t st2" for j
  proof (cases "j < ?t")
    case True
    with inv that obtain a b where "?lp ! (j - 1) = Some a" "?lp ! (j - 2) = Some b" "0 < a - b"
      unfolding trace_inv_def by blast
    with True that show ?thesis by (simp add: l2 nth_list_update)
  next
    case False
    with that t2 have j: "j = ?t" by simp
    with that inv obtain a b where "?lp ! (?t - 1) = Some a" "?lp ! (?t - 2) = Some b"
      "st_diff_log_P st = a - b"
      unfolding trace_inv_def by auto
    moreover have "?t - 1 \<noteq> ?t" "?t - 2 \<noteq> ?t" using that j by linarith+
    ultimately show ?thesis using c j by (simp add: l2)
  qed
  show ?thesis
    unfolding trace_inv_def using A1 A2 A3 A4 A5 A6 by (intro conjI allI impI) simp_all
qed

lemma em_loop_trace_inv:
  "em_loop cs hs n m st = Inr st' \<Longrightarrow> trace_inv n st \<Longrightarrow>
     trace_inv n st' \<and> \<not> (int (st_t st') < n - 1 \<and> 0 < st_diff_log_P st')"
proof (induction cs hs n m st rule: em_loop.induct)
  case (1 cs hs n m st)
  show ?case
  proof (cases "int (st_t st) < n - 1 \<and> 0 < st_diff_log_P st")
    case False
    with "1.prems" show ?thesis by (subst (asm) em_loop.simps) auto
  next
    case True
    with "1.prems"(1) obtain st1 st2 where b: "em_body cs hs m st = Inr st1"
      and i: "increment st1 = Inr st2" and r: "em_loop cs hs n m st2 = Inr st'"
      by (subst (asm) em_loop.simps) (auto split: sum.splits)
    from trace_inv_pass[OF "1.prems"(2) True b i] have "trace_inv n st2" .
    from "1.IH"[OF True b i r this] show ?thesis .
  qed
qed

text \<open>
  The read of \<open>log_P[t-1]\<close> in line 265 always finds a slot that an earlier pass has
  written: \<open>increment\<close> never stops with \<open>Uninitialised\<close> in a run.
\<close>

lemma increment_defined:
  assumes inv: "trace_inv n st" and c: "int (st_t st) < n - 1"
    and b: "em_body cs hs m st = Inr st1"
  shows "\<exists>st2. increment st1 = Inr st2"
proof -
  let ?t = "st_t st"
  from em_body_fields[OF b] obtain v where
    t1: "st_t st1 = ?t" and l1: "st_log_P st1 = (st_log_P st)[?t := Some v]" by blast
  from inv have len: "length (st_log_P st) = nat n" by (simp add: trace_inv_def)
  from c have tn: "?t < nat n" by linarith
  show ?thesis
  proof (cases "1 < ?t")
    case False
    then show ?thesis by (simp add: increment_def t1)
  next
    case True
    then have "?t - 1 < ?t" by simp
    with inv obtain w where "st_log_P st ! (?t - 1) = Some w"
      unfolding trace_inv_def by (metis option.exhaust)
    moreover have "?t - 1 \<noteq> ?t" using True by simp
    ultimately show ?thesis
      using True len tn by (simp add: increment_def t1 l1 read_slot_def and_then_def)
  qed
qed

section \<open>A run followed by hand\<close>

lemma emission_sym: "emission 0 0 0 [0, 0] [0, 0] = [(exp (- 1), exp (- 1)), (exp (- 1), exp (- 1))]"
  by (simp add: emission_def bin_lambda_def poisson_def Let_def upt_rec numeral_2_eq_2)

lemma length2E: "length xs = 2 \<Longrightarrow> (\<And>a b. xs = [a, b] \<Longrightarrow> P) \<Longrightarrow> P"
  by (auto simp: numeral_2_eq_2 length_Suc_conv)

lemma forward_sym:
  "length al = 2 \<Longrightarrow> forward t (1/2, 1/2) ((1/2, 1/2), (1/2, 1/2)) [(exp (- 1), exp (- 1)), (exp (- 1), exp (- 1))] al
     = Inr ([(1/2, 1/2), (1/2, 1/2)], [exp (- 1), exp (- 1)])"
  by (erule length2E)
     (simp add: forward_def Let_def vmul_def vsum_def vdiv_def and_then_def upt_rec vecmat_def numeral_2_eq_2)

lemma sum_log_sym: "sum_log [exp (- 1), exp (- 1)] = Inr sym_L"
proof -
  have "0 < exp (- 1) + EPS" by (simp add: EPS_def add_pos_pos)
  then show ?thesis by (simp add: flog_def and_then_def sym_L_def)
qed

lemma backward_sym:
  "length be = 2 \<Longrightarrow> backward ((1/2, 1/2), (1/2, 1/2)) [(exp (- 1), exp (- 1)), (exp (- 1), exp (- 1))] [exp (- 1), exp (- 1)] be
     = Inr [(exp 1, exp 1), (exp 1, exp 1)]"
  by (erule length2E)
     (simp add: backward_def Let_def vmul_def vdiv_def and_then_def upt_rec matvec_def numeral_2_eq_2 exp_minus field_simps)

lemma zeta_sym:
  "length ze = 2 \<Longrightarrow> ze ! 1 = ((0, 0), (0, 0)) \<Longrightarrow> length ga = 2 \<Longrightarrow> ga ! 1 = (0, 0) \<Longrightarrow>
   zeta_loop t ((1/2, 1/2), (1/2, 1/2)) [(exp (- 1), exp (- 1)), (exp (- 1), exp (- 1))]
      [(1/2, 1/2), (1/2, 1/2)] [(exp 1, exp 1), (exp 1, exp 1)] [0..<1] (ze, ga)
     = Inr ([((1/4, 1/4), (1/4, 1/4)), ((0, 0), (0, 0))], [(1/2, 1/2), (0, 0)])"
  apply (erule length2E)
  apply (erule length2E)
  apply (simp add: zeta_temp_def vmul_def msum_def vsum_def mscale_def row_sums_def exp_minus Let_def)
  done

lemma update_A_sym:
  "update_A [((1/4, 1/4), (1/4, 1/4)), ((0, 0), (0, 0))] [(1/2, 1/2), (0, 0)] = Inr ((1/2, 1/2), (1/2, 1/2))"
  by (simp add: update_A_def madd_def vadd_def vdiv_def and_then_def Let_def)

lemma newton_zero: "1 < length cs \<Longrightarrow> length hs = length cs \<Longrightarrow> length Z = length cs \<Longrightarrow>
   newton_ralphson cs Z hs a b mu 0 = Inr (0, 0, 0)"
  by (simp add: newton_ralphson_def and_then_def Let_def)

lemma em_body_sym:
  assumes "st_A st = ((1/2, 1/2), (1/2, 1/2))" "st_alphaa st = 0" "st_betaa st = 0" "st_mu st = 0"
    and "st_B st = [(exp (- 1), exp (- 1)), (exp (- 1), exp (- 1))]" "st_p0 st = (1/2, 1/2)"
    and "length (st_alpha st) = 2" "length (st_beta st) = 2"
    and "length (st_gamma st) = 2" "st_gamma st ! 1 = (0, 0)"
    and "length (st_zeta st) = 2" "st_zeta st ! 1 = ((0, 0), (0, 0))"
  shows "em_body [0, 0] [0, 0] 0 st
     = Inr (sym_state (st_t st) (st_diff_log_P st) ((st_log_P st)[st_t st := Some sym_L]))"
proof -
  note f = forward_sym[OF assms(7), of "st_t st"]
  note b = backward_sym[OF assms(8)]
  note z = zeta_sym[OF assms(11,12,9,10), of "st_t st"]
  have l: "[0..<length [0::nat, 0] - 1] = [0..<1]" by simp
  have n: "newton_ralphson [0, 0] (map (\<lambda>g. 0 * fst g + 1 * snd g) [(1/2, 1/2), (0, 0)]) [0, 0] 0 0 0 0
      = Inr (0, 0, 0)"
    by (rule newton_zero) simp_all
  show ?thesis
    unfolding em_body_def assms(1-6) l
    by (simp only: f sum_log_sym b z update_A_sym n and_then_def sum.case prod.case Let_def emission_sym
        sym_state_def)
       (cases st, simp)
qed

lemma em_body_init:
  "em_body [0, 0] [0, 0] 0 (init_state [0, 0] [0, 0] ((1/2, 1/2), (1/2, 1/2)) 0 0 0 n)
     = Inr (sym_state 0 10 ((replicate (nat n) None)[0 := Some sym_L]))"
  using em_body_sym[of "init_state [0, 0] [0, 0] ((1/2, 1/2), (1/2, 1/2)) 0 0 0 n"]
  by (simp add: init_state_def emission_sym)

lemma em_body_sym_state:
  "em_body [0, 0] [0, 0] 0 (sym_state t d lp) = Inr (sym_state t d (lp[t := Some sym_L]))"
  using em_body_sym[of "sym_state t d lp"]
  by (simp add: sym_state_def)

lemma sym_state_sel [simp]:
  "st_t (sym_state t d lp) = t" "st_diff_log_P (sym_state t d lp) = d" "st_log_P (sym_state t d lp) = lp"
  by (simp_all add: sym_state_def)

lemma increment_sym_low:
  "t \<le> 1 \<Longrightarrow> increment (sym_state t d lp) = Inr (sym_state (t + 1) d lp)"
  by (simp add: increment_def sym_state_def)

lemma increment_sym_high:
  "1 < t \<Longrightarrow> lp ! t = Some a \<Longrightarrow> lp ! (t - 1) = Some b \<Longrightarrow>
     increment (sym_state t d lp) = Inr (sym_state (t + 1) (a - b) lp)"
  by (simp add: increment_def sym_state_def read_slot_def and_then_def)

lemma em_loop_sym_continue:
  "int t < n - 1 \<Longrightarrow> 0 < d \<Longrightarrow> increment (sym_state t d (lp[t := Some sym_L])) = Inr st' \<Longrightarrow>
     em_loop [0, 0] [0, 0] n 0 (sym_state t d lp) = em_loop [0, 0] [0, 0] n 0 st'"
  by (subst em_loop.simps) (simp add: em_body_sym_state)

lemma em_loop_sym_stop:
  "\<not> (int t < n - 1 \<and> 0 < d) \<Longrightarrow>
     em_loop [0, 0] [0, 0] n 0 (sym_state t d lp) = Inr (sym_state t d lp)"
  by (rule em_loop_stop) simp

lemma em_loop_init:
  "1 < n \<Longrightarrow>
   em_loop [0, 0] [0, 0] n 0 (init_state [0, 0] [0, 0] ((1/2, 1/2), (1/2, 1/2)) 0 0 0 n)
     = em_loop [0, 0] [0, 0] n 0 (sym_state 1 10 ((replicate (nat n) None)[0 := Some sym_L]))"
  by (subst em_loop.simps) (simp add: em_body_init increment_sym_low, simp add: init_state_def)

lemma run_em_sym_10:
  "run_em [0, 0] [0, 0] ((1/2, 1/2), (1/2, 1/2)) 0 0 0 10 0 = Inr (sym_state 3 0 sym_trace)"
proof -
  have r: "(replicate (nat 10) None)[0 := Some sym_L]
      = [Some sym_L, None, None, None, None, None, None, None, None, None]"
    by (simp add: eval_nat_numeral)
  have "em_loop [0, 0] [0, 0] 10 0 (init_state [0, 0] [0, 0] ((1/2, 1/2), (1/2, 1/2)) 0 0 0 10)
      = em_loop [0, 0] [0, 0] 10 0 (sym_state 1 10 [Some sym_L, None, None, None, None, None, None, None, None, None])"
    by (subst em_loop_init, simp) (simp only: r)
  also have "\<dots> = em_loop [0, 0] [0, 0] 10 0 (sym_state 2 10 [Some sym_L, Some sym_L, None, None, None, None, None, None, None, None])"
    by (rule em_loop_sym_continue) (simp_all add: increment_sym_low numeral_2_eq_2)
  also have "\<dots> = em_loop [0, 0] [0, 0] 10 0 (sym_state 3 0 sym_trace)"
    by (rule em_loop_sym_continue) (simp_all add: increment_sym_high[where a = sym_L and b = sym_L] sym_trace_def)
  also have "\<dots> = Inr (sym_state 3 0 sym_trace)"
    by (rule em_loop_sym_stop) simp
  finally show ?thesis by (simp add: run_em_def)
qed

lemma run_em_sym_2:
  "run_em [0, 0] [0, 0] ((1/2, 1/2), (1/2, 1/2)) 0 0 0 2 0 = Inr (sym_state 1 10 [Some sym_L, None])"
proof -
  have r: "(replicate (nat 2) None)[0 := Some sym_L] = [Some sym_L, None]"
    by (simp add: eval_nat_numeral)
  have "em_loop [0, 0] [0, 0] 2 0 (init_state [0, 0] [0, 0] ((1/2, 1/2), (1/2, 1/2)) 0 0 0 2)
      = em_loop [0, 0] [0, 0] 2 0 (sym_state 1 10 [Some sym_L, None])"
    by (subst em_loop_init, simp) (simp only: r)
  also have "\<dots> = Inr (sym_state 1 10 [Some sym_L, None])"
    by (rule em_loop_sym_stop) simp
  finally show ?thesis by (simp add: run_em_def)
qed

section \<open>The same run from a matrix with a negative entry\<close>







section \<open>When the loop stops, and what the trace holds\<close>

lemma run_em_trace_inv:
  assumes "run_em cs hs A a b mu n m = Inr st"
  shows "trace_inv n st \<and> \<not> (int (st_t st) < n - 1 \<and> 0 < st_diff_log_P st)"
proof -
  from assms have n: "0 \<le> n"
    and l: "em_loop cs hs n m (init_state cs hs A a b mu n) = Inr st"
    by (auto simp: run_em_def split: if_splits)
  from em_loop_trace_inv[OF l trace_inv_init[OF n]] show ?thesis .
qed

lemma decode_trace: "decode st = Inr res \<Longrightarrow> ret_log_P res = st_log_P st \<and> ret_prob_S res = st_gamma st
    \<and> ret_A res = st_A st \<and> ret_p0 res = (exp (fst (st_gamma st ! 0)), exp (snd (st_gamma st ! 0)))"
  by (auto simp: decode_def and_then_def Let_def split: if_splits sum.splits prod.splits)

lemma decode_sym_succeeds: "\<exists>res. decode (sym_state t d lp) = Inr res"
  by (rule decode_succeeds) (auto simp: sym_state_def EPS_def intro: add_pos_pos)

lemma priv_run_sym_10:
  "\<exists>res. priv_run_hmmem [0, 0] [0, 0] ((1/2, 1/2), (1/2, 1/2)) 0 0 0 10 0 = Inr res
     \<and> decode (sym_state 3 0 sym_trace) = Inr res"
  using decode_sym_succeeds[of 3 0 sym_trace]
  by (auto simp: priv_run_hmmem_def run_em_sym_10 and_then_def)

text \<open>
  Claim C1, as the code has it. When the loop has ended with \<open>m\<close> completed passes,
  \<open>m \<le> n_iter_EM - 1\<close> (and \<open>m = 0\<close> for \<open>n_iter_EM \<le> 1\<close>); either \<open>m\<close> is
  exactly that bound, or \<open>m \<ge> 3\<close> and the last two log-likelihoods did not increase,
  \<open>log_P[m-1] - log_P[m-2] \<le> 0\<close>; and the loop did not stop earlier: for every
  \<open>j\<close> with \<open>3 \<le> j < m\<close>, \<open>log_P[j-1] - log_P[j-2] > 0\<close>. The difference is first
  computed at the end of the third pass (\<open>if t > 1\<close>, with \<open>t\<close> counted from 0).
\<close>

theorem em_loop_stops:
  assumes "run_em cs hs init_A init_alphaa init_betaa init_mu n_iter_EM n_nr = Inr st"
  shows "int (st_t st) \<le> max 0 (n_iter_EM - 1)
    \<and> (int (st_t st) = max 0 (n_iter_EM - 1)
        \<or> (3 \<le> st_t st \<and> (\<exists>x y. st_log_P st ! (st_t st - 1) = Some x
               \<and> st_log_P st ! (st_t st - 2) = Some y \<and> x - y \<le> 0)))
    \<and> (\<forall>j. 3 \<le> j \<and> j < st_t st \<longrightarrow>
          (\<exists>x y. st_log_P st ! (j - 1) = Some x \<and> st_log_P st ! (j - 2) = Some y \<and> 0 < x - y))"
proof -
  from run_em_trace_inv[OF assms] have inv: "trace_inv n_iter_EM st"
    and stop: "\<not> (int (st_t st) < n_iter_EM - 1 \<and> 0 < st_diff_log_P st)" by simp_all
  from inv have le: "int (st_t st) \<le> max 0 (n_iter_EM - 1)" by (simp add: trace_inv_def)
  from inv have earlier: "\<forall>j. 3 \<le> j \<and> j < st_t st \<longrightarrow>
          (\<exists>x y. st_log_P st ! (j - 1) = Some x \<and> st_log_P st ! (j - 2) = Some y \<and> 0 < x - y)"
    by (simp add: trace_inv_def)
  have last: "int (st_t st) = max 0 (n_iter_EM - 1)
        \<or> (3 \<le> st_t st \<and> (\<exists>x y. st_log_P st ! (st_t st - 1) = Some x
               \<and> st_log_P st ! (st_t st - 2) = Some y \<and> x - y \<le> 0))"
  proof (cases "int (st_t st) < n_iter_EM - 1")
    case False
    with le show ?thesis by linarith
  next
    case True
    with stop have d: "st_diff_log_P st \<le> 0" by simp
    show ?thesis
    proof (cases "3 \<le> st_t st")
      case True
      with inv obtain x y where "st_log_P st ! (st_t st - 1) = Some x"
        "st_log_P st ! (st_t st - 2) = Some y" "st_diff_log_P st = x - y"
        unfolding trace_inv_def by auto
      with d True show ?thesis by auto
    next
      case False
      with inv have "st_diff_log_P st = 10" by (simp add: trace_inv_def)
      with d show ?thesis by simp
    qed
  qed
  from le last earlier show ?thesis by (intro conjI)
qed

theorem em_loop_stops_witness:
  "run_em [0, 0] [0, 0] ((1/2, 1/2), (1/2, 1/2)) 0 0 0 10 0 = Inr (sym_state 3 0 sym_trace)
     \<and> st_t (sym_state 3 0 sym_trace) = 3
     \<and> st_log_P (sym_state 3 0 sym_trace) ! 2 = Some sym_L
     \<and> st_log_P (sym_state 3 0 sym_trace) ! 1 = Some sym_L"
  using em_loop_stops[OF run_em_sym_10] run_em_sym_10
  by (simp add: sym_trace_def)

text \<open>
  Claim C1 as stated fails. With \<open>n_iter_EM = 2\<close> the loop ends after one pass: the
  budget of two is not used up and no two passes are completed. With \<open>n_iter_EM = 10\<close>
  and a log-likelihood that stays at \<open>sym_L\<close>, so that \<open>log_P[1] - log_P[0] = 0\<close> after
  two completed passes, the loop makes a third pass and ends after it.
\<close>

theorem em_loop_budget_counterexample:
  "map_sum id st_t (run_em [0, 0] [0, 0] ((1/2, 1/2), (1/2, 1/2)) 0 0 0 2 0) = Inr 1
   \<and> map_sum id st_t (run_em [0, 0] [0, 0] ((1/2, 1/2), (1/2, 1/2)) 0 0 0 10 0) = Inr 3
   \<and> map_sum id st_log_P (run_em [0, 0] [0, 0] ((1/2, 1/2), (1/2, 1/2)) 0 0 0 10 0)
       = Inr [Some sym_L, Some sym_L, Some sym_L, None, None, None, None, None, None, None]"
  by (simp add: run_em_sym_2 run_em_sym_10 sym_trace_def)

text \<open>
  Claim C9, as the code has it. The returned trace is the array allocated before the
  loop: its length is \<open>n_iter_EM\<close>; with \<open>m \<le> max 0 (n_iter_EM - 1)\<close> the number of
  completed passes, its first \<open>m\<close> slots were written, one by the E-step of each
  pass, and its other slots were never written.
\<close>

theorem trace_length:
  assumes "priv_run_hmmem cs hs init_A init_alphaa init_betaa init_mu n_iter_EM n_nr = Inr res"
  shows "\<exists>st. run_em cs hs init_A init_alphaa init_betaa init_mu n_iter_EM n_nr = Inr st
    \<and> ret_log_P res = st_log_P st
    \<and> length (ret_log_P res) = nat n_iter_EM
    \<and> int (st_t st) \<le> max 0 (n_iter_EM - 1)
    \<and> (\<forall>i<st_t st. ret_log_P res ! i \<noteq> None)
    \<and> (\<forall>i. st_t st \<le> i \<and> i < nat n_iter_EM \<longrightarrow> ret_log_P res ! i = None)"
proof -
  from assms obtain st where r: "run_em cs hs init_A init_alphaa init_betaa init_mu n_iter_EM n_nr = Inr st"
    and d: "decode st = Inr res"
    by (auto simp: priv_run_hmmem_def and_then_def split: sum.splits)
  from run_em_trace_inv[OF r] have inv: "trace_inv n_iter_EM st" by simp
  from decode_trace[OF d] have e: "ret_log_P res = st_log_P st" by simp
  have big: "ret_log_P res = st_log_P st
    \<and> length (ret_log_P res) = nat n_iter_EM
    \<and> int (st_t st) \<le> max 0 (n_iter_EM - 1)
    \<and> (\<forall>i<st_t st. ret_log_P res ! i \<noteq> None)
    \<and> (\<forall>i. st_t st \<le> i \<and> i < nat n_iter_EM \<longrightarrow> ret_log_P res ! i = None)"
    using inv e unfolding trace_inv_def by simp
  show ?thesis by (rule exI[of _ st]) (rule conjI[OF r big])
qed

theorem trace_length_witness:
  "\<exists>res. priv_run_hmmem [0, 0] [0, 0] ((1/2, 1/2), (1/2, 1/2)) 0 0 0 10 0 = Inr res
     \<and> ret_log_P res = sym_trace \<and> length (ret_log_P res) = 10"
proof -
  from priv_run_sym_10 obtain res where
    r: "priv_run_hmmem [0, 0] [0, 0] ((1/2, 1/2), (1/2, 1/2)) 0 0 0 10 0 = Inr res" by blast
  from trace_length[OF r] run_em_sym_10 have "ret_log_P res = sym_trace \<and> length (ret_log_P res) = 10"
    by auto
  with r show ?thesis by blast
qed

text \<open>
  Claim C9 as stated fails: the run below completes three passes and returns a trace
  of length ten, whose last seven slots no E-step has written.
\<close>

theorem trace_length_counterexample:
  "map_sum id ret_log_P (priv_run_hmmem [0, 0] [0, 0] ((1/2, 1/2), (1/2, 1/2)) 0 0 0 10 0)
       = Inr [Some sym_L, Some sym_L, Some sym_L, None, None, None, None, None, None, None]
   \<and> map_sum id st_t (run_em [0, 0] [0, 0] ((1/2, 1/2), (1/2, 1/2)) 0 0 0 10 0) = Inr 3"
proof -
  from priv_run_sym_10 obtain res where
    r: "priv_run_hmmem [0, 0] [0, 0] ((1/2, 1/2), (1/2, 1/2)) 0 0 0 10 0 = Inr res"
    and d: "decode (sym_state 3 0 sym_trace) = Inr res" by blast
  from decode_trace[OF d] have "ret_log_P res = sym_trace" by simp
  with r show ?thesis by (simp add: run_em_sym_10 sym_trace_def)
qed

section \<open>The Newton solver\<close>

lemma sum_list_upt_sum: "(\<Sum>k\<leftarrow>[0..<n]. f k) = (\<Sum>k<n. f k)"
  by (simp add: interv_sum_list_conv_sum_set_nat atLeast0LessThan)

lemma sum_list_nat_nth: "real (sum_list cs) = (\<Sum>k<length cs. real (cs ! k))"
proof -
  have "sum_list cs = (\<Sum>k<length cs. cs ! k)"
    by (simp add: sum_list_sum_nth atLeast0LessThan)
  then show ?thesis by simp
qed

lemma g_mu_spec:
  "g_mu cs Z hs a b = spec_g (length cs) (\<lambda>k. 1) (\<lambda>\<theta> k. \<theta> + a * Z ! k + b * real_of_int (hs ! k)) cs"
  by (rule ext) (simp add: g_mu_def spec_g_def sum_list_upt_sum sum_list_nat_nth)

lemma gprime_mu_spec:
  "gprime_mu cs Z hs a b = spec_gprime (length cs) (\<lambda>k. 1) (\<lambda>\<theta> k. \<theta> + a * Z ! k + b * real_of_int (hs ! k))"
  by (rule ext) (simp add: gprime_mu_def spec_gprime_def sum_list_upt_sum)

lemma g_alphaa_spec:
  "g_alphaa cs Z hs mu b = spec_g (length cs) (\<lambda>k. Z ! k) (\<lambda>\<theta> k. mu + \<theta> * Z ! k + b * real_of_int (hs ! k)) cs"
  by (rule ext) (simp add: g_alphaa_def spec_g_def sum_list_upt_sum mult.commute)

lemma gprime_alphaa_spec:
  "gprime_alphaa cs Z hs mu b = spec_gprime (length cs) (\<lambda>k. Z ! k) (\<lambda>\<theta> k. mu + \<theta> * Z ! k + b * real_of_int (hs ! k))"
  by (rule ext) (simp add: gprime_alphaa_def spec_gprime_def sum_list_upt_sum power2_eq_square)

lemma g_betaa_spec:
  "g_betaa cs Z hs mu a = spec_g (length cs) (\<lambda>k. real_of_int (hs ! k)) (\<lambda>\<theta> k. mu + a * Z ! k + \<theta> * real_of_int (hs ! k)) cs"
  by (rule ext) (simp add: g_betaa_def spec_g_def sum_list_upt_sum mult.commute)

lemma gprime_betaa_spec:
  "gprime_betaa cs Z hs mu a = spec_gprime (length cs) (\<lambda>k. real_of_int (hs ! k)) (\<lambda>\<theta> k. mu + a * Z ! k + \<theta> * real_of_int (hs ! k))"
  by (rule ext) (simp add: gprime_betaa_def spec_gprime_def sum_list_upt_sum power2_eq_square)

lemma newton_loop_iterate:
  "newton_loop g gp (Suc n) (u, r) = and_then (newton_iterate g gp (Suc n) u) (\<lambda>x. Inr (x, x))"
proof (induction n arbitrary: u r)
  case 0
  then show ?case by (simp add: and_then_def Let_def)
next
  case (Suc n)
  show ?case
  proof (cases "gp u = 0")
    case True
    then show ?thesis by (simp add: and_then_def)
  next
    case False
    have "newton_loop g gp (Suc (Suc n)) (u, r) = newton_loop g gp (Suc n) (u - g u / gp u, u - g u / gp u)"
      using False by (subst newton_loop.simps(2)) (simp only: Let_def if_False)
    also have "\<dots> = and_then (newton_iterate g gp (Suc n) (u - g u / gp u)) (\<lambda>x. Inr (x, x))"
      by (rule Suc.IH)
    also have "\<dots> = and_then (newton_iterate g gp (Suc (Suc n)) u) (\<lambda>x. Inr (x, x))"
      using False by simp
    finally show ?thesis .
  qed
qed

lemma newton_loop_zero: "newton_loop g gp 0 (u, r) = Inr (u, r)"
  by simp

lemma spec_gprime_pos:
  assumes "k < n" "w k \<noteq> 0"
  shows "0 < spec_gprime n w lin \<theta>"
  unfolding spec_gprime_def
proof (rule sum_pos2[of _ k])
  show "finite {..<n}" by simp
  show "k \<in> {..<n}" using assms(1) by simp
  show "0 < (w k)\<^sup>2 * exp (lin \<theta> k)" using assms(2) by simp
  show "\<And>j. j \<in> {..<n} \<Longrightarrow> 0 \<le> (w j)\<^sup>2 * exp (lin \<theta> j)" by simp
qed

lemma newton_iterate_one:
  "gp \<theta> \<noteq> 0 \<Longrightarrow> newton_iterate g gp (Suc 0) \<theta> = Inr (\<theta> - g \<theta> / gp \<theta>)"
  by simp

lemma newton_ralphson_spec_one:
  assumes "k1 < length cs" "Z ! k1 \<noteq> 0" "k2 < length cs" "hs ! k2 \<noteq> 0"
  shows "\<exists>alphaa betaa. newton_ralphson_spec cs Z hs a b m 1
     = Inr (alphaa, betaa,
            m + 0.001
            - spec_g (length cs) (\<lambda>k. 1) (\<lambda>\<theta> k. \<theta> + a * Z ! k + b * real_of_int (hs ! k)) cs (m + 0.001)
              / spec_gprime (length cs) (\<lambda>k. 1) (\<lambda>\<theta> k. \<theta> + a * Z ! k + b * real_of_int (hs ! k)) (m + 0.001))"
proof -
  have gp1: "spec_gprime (length cs) (\<lambda>k. 1) lin \<theta> \<noteq> 0" for lin \<theta>
    using spec_gprime_pos[of k1 "length cs" "\<lambda>k. 1" lin \<theta>] assms(1) by simp
  have gp2: "spec_gprime (length cs) (\<lambda>k. Z ! k) lin \<theta> \<noteq> 0" for lin \<theta>
    using spec_gprime_pos[of k1 "length cs" "\<lambda>k. Z ! k" lin \<theta>] assms(1,2) by simp
  have gp3: "spec_gprime (length cs) (\<lambda>k. real_of_int (hs ! k)) lin \<theta> \<noteq> 0" for lin \<theta>
    using spec_gprime_pos[of k2 "length cs" "\<lambda>k. real_of_int (hs ! k)" lin \<theta>] assms(3,4) by simp
  show ?thesis
    unfolding newton_ralphson_spec_def Let_def
    by (simp add: gp1 gp2 gp3 and_then_def)
qed

text \<open>A \<open>Z\<close> of one entry is used like the row that repeats it.\<close>

lemma newton_ralphson_broadcast:
  "newton_ralphson [0, 3, 1] [1/2] [0, 0, 3] a b m n
     = newton_ralphson [0, 3, 1] [1/2, 1/2, 1/2] [0, 0, 3] a b m n"
  by (simp add: newton_ralphson_def broadcast_def Let_def numeral_3_eq_3)

text \<open>
  Claim C5, as the code has it. Take a call with \<open>n_iter \<ge> 1\<close> on arrays that the
  function accepts: a row of counts and a row of history counts of one length
  \<open>n > 1\<close>, and a \<open>Z\<close> of length \<open>n\<close>, or of length 1, which numpy then uses for every
  bin. The function computes what the specification describes: \<open>mu\<close> by \<open>n_iter\<close>
  unguarded Newton updates from \<open>init_mu + 0.001\<close> with unit weights and the previous
  \<open>alphaa\<close> and \<open>betaa\<close>, then \<open>alphaa\<close> from \<open>init_alphaa + 0.002\<close> with the weights
  \<open>Z[k]\<close> and the new \<open>mu\<close>, then \<open>betaa\<close> from \<open>init_betaa + 0.003\<close> with the weights
  \<open>history[k]\<close> and the new \<open>mu\<close> and \<open>alphaa\<close>.
\<close>

theorem newton_block_coordinate:
  assumes "1 < length cs" "length hs = length cs" "length Z = length cs \<or> length Z = 1"
    and "1 \<le> n_iter"
  shows "newton_ralphson cs Z hs init_alphaa init_betaa init_mu n_iter
           = newton_ralphson_spec cs (broadcast (length cs) Z) hs init_alphaa init_betaa init_mu n_iter"
proof -
  from assms(4) obtain n where n: "nat n_iter = Suc n" by (cases "nat n_iter") auto
  have off: "(0.01::real) * 0.1 = 0.001" "(0.01::real) * 0.2 = 0.002" "(0.01::real) * 0.3 = 0.003"
    by simp_all
  have shape: "\<not> (length hs \<noteq> length cs \<or> (length Z \<noteq> length cs \<and> length Z \<noteq> 1))"
    using assms(2,3) by auto
  show ?thesis
    using assms(1,2) shape
    unfolding newton_ralphson_def newton_ralphson_spec_def n newton_loop_iterate off Let_def
      g_mu_spec gprime_mu_spec g_alphaa_spec gprime_alphaa_spec g_betaa_spec gprime_betaa_spec
    by (auto simp: and_then_def split: sum.splits)
qed

theorem newton_block_coordinate_witness:
  "\<exists>alphaa betaa.
     newton_ralphson [1, 2] [1/2, 1] [0, 1] 1 0 (- 1/2) 1
       = Inr (alphaa, betaa, - 1/2 + 0.001 - (exp 0.001 + exp 0.501 - 3) / (exp 0.001 + exp 0.501))
     \<and> newton_ralphson_spec [1, 2] (broadcast 2 [1/2, 1]) [0, 1] 1 0 (- 1/2) 1
       = newton_ralphson [1, 2] [1/2, 1] [0, 1] 1 0 (- 1/2) 1"
proof -
  have b: "broadcast (length [1::nat, 2]) [1/2, 1] = [1/2, 1]" "broadcast 2 [1/2, 1 :: real] = [1/2, 1]"
    by (simp_all add: broadcast_def)
  have two: "{..<Suc (Suc 0)} = {0, Suc 0}" by auto
  have "\<exists>alphaa betaa. newton_ralphson_spec [1, 2] [1/2, 1] [0, 1] 1 0 (- 1/2) 1
     = Inr (alphaa, betaa,
            - 1/2 + 0.001
            - spec_g (length [1::nat, 2]) (\<lambda>k. 1)
                (\<lambda>\<theta> k. \<theta> + 1 * [1/2, 1] ! k + 0 * real_of_int ([0, 1] ! k)) [1, 2] (- 1/2 + 0.001)
              / spec_gprime (length [1::nat, 2]) (\<lambda>k. 1)
                (\<lambda>\<theta> k. \<theta> + 1 * [1/2, 1] ! k + 0 * real_of_int ([0, 1] ! k)) (- 1/2 + 0.001))"
    by (rule newton_ralphson_spec_one[of 0 _ _ 1]) simp_all
  moreover have "- 1/2 + 0.001
            - spec_g (length [1::nat, 2]) (\<lambda>k. 1)
                (\<lambda>\<theta> k. \<theta> + 1 * [1/2, 1] ! k + 0 * real_of_int ([0, 1] ! k)) [1, 2] (- 1/2 + 0.001)
              / spec_gprime (length [1::nat, 2]) (\<lambda>k. 1)
                (\<lambda>\<theta> k. \<theta> + 1 * [1/2, 1] ! k + 0 * real_of_int ([0, 1] ! k)) (- 1/2 + 0.001)
        = - 1/2 + 0.001 - (exp 0.001 + exp 0.501 - 3) / (exp 0.001 + exp 0.501)"
    by (simp add: spec_g_def spec_gprime_def two)
  ultimately obtain alphaa betaa where
    s: "newton_ralphson_spec [1, 2] [1/2, 1] [0, 1] 1 0 (- 1/2) 1
       = Inr (alphaa, betaa, - 1/2 + 0.001 - (exp 0.001 + exp 0.501 - 3) / (exp 0.001 + exp 0.501))"
    by auto
  have e: "newton_ralphson [1, 2] [1/2, 1] [0, 1] 1 0 (- 1/2) 1
      = newton_ralphson_spec [1, 2] (broadcast (length [1::nat, 2]) [1/2, 1]) [0, 1] 1 0 (- 1/2) 1"
    by (rule newton_block_coordinate) simp_all
  from s e show ?thesis unfolding b by (intro exI[of _ alphaa] exI[of _ betaa]) simp
qed

text \<open>
  Claim C5 as stated fails for \<open>n_iter = 0\<close>: zero updates from the offset starting
  points would return those starting points; the function returns the three zeros
  that lines 327 and 331 store before the loops.
\<close>

theorem newton_block_coordinate_counterexample:
  "newton_ralphson [0, 1] [1/2, 1/2] [0, 0] 1 0 (- 1/2) 0 = Inr (0, 0, 0)
   \<and> newton_ralphson_spec [0, 1] (broadcast 2 [1/2, 1/2]) [0, 0] 1 0 (- 1/2) 0
       = Inr (1 + 0.002, 0 + 0.003, - 1/2 + 0.001)"
  by (simp add: newton_ralphson_def newton_ralphson_spec_def and_then_def broadcast_def Let_def)

section \<open>The E-step and the M-step keep the tables well-formed\<close>

lemma nonneg2_vmul: "nonneg2 u \<Longrightarrow> nonneg2 v \<Longrightarrow> nonneg2 (vmul u v)"
  by (simp add: nonneg2_def vmul_def)


lemma nonneg2_matvec: "nonneg2 v \<Longrightarrow> nonneg_mat M \<Longrightarrow> nonneg2 (matvec M v)"
  by (simp add: nonneg2_def nonneg_mat_def matvec_def)

lemma nonneg2_scale: "nonneg2 v \<Longrightarrow> 0 < c \<Longrightarrow> nonneg2 (fst v / c, snd v / c)"
  by (simp add: nonneg2_def)


lemma forward_loop_frame:
  "forward_loop t A B [a..<b] (al, C) = Inr (al', C') \<Longrightarrow>
     length al' = length al \<and> length C' = length C \<and> (\<forall>i<a. al' ! i = al ! i \<and> C' ! i = C ! i)"
proof (induction "b - a" arbitrary: a al C)
  case 0
  then show ?case by simp
next
  case (Suc n)
  then have ab: "a < b" by simp
  let ?a = "vmul (vecmat (al ! (a - 1)) A) (B ! a)"
  from Suc.prems have
    run: "forward_loop t A B [Suc a..<b] (al[a := (fst ?a / vsum ?a, snd ?a / vsum ?a)], C[a := vsum ?a]) = Inr (al', C')"
    by (simp add: upt_conv_Cons[OF ab] Let_def split: if_splits)
  from Suc.hyps(1)[OF _ run] Suc.hyps(2) show ?case by auto
qed



lemma backward_loop_props:
  assumes "backward_loop A B C (rev [0..<m]) be = Inr be'" "m < length be"
  shows "length be' = length be \<and> (\<forall>i. m \<le> i \<longrightarrow> be' ! i = be ! i)
    \<and> (nonneg_mat A \<and> (\<forall>k\<le>m. nonneg2 (B ! k)) \<and> (\<forall>k<m. 0 < C ! k) \<and> nonneg2 (be ! m)
         \<longrightarrow> (\<forall>k<m. nonneg2 (be' ! k)))"
  using assms
proof (induction m arbitrary: be)
  case 0
  then show ?case by simp
next
  case (Suc m)
  let ?b = "matvec A (vmul (be ! (m + 1)) (B ! (m + 1)))"
  let ?be1 = "be[m := (fst ?b / C ! m, snd ?b / C ! m)]"
  from Suc.prems(1) have run: "backward_loop A B C (rev [0..<m]) ?be1 = Inr be'"
    by (auto simp: and_then_def vdiv_def split: if_splits)
  have m: "m < length ?be1" using Suc.prems(2) by simp
  note ih = Suc.IH[OF run m]
  have fr: "length be' = length be \<and> (\<forall>i. Suc m \<le> i \<longrightarrow> be' ! i = be ! i)"
    using ih by simp
  have nn: "\<forall>k<Suc m. nonneg2 (be' ! k)"
    if h: "nonneg_mat A \<and> (\<forall>k\<le>Suc m. nonneg2 (B ! k)) \<and> (\<forall>k<Suc m. 0 < C ! k) \<and> nonneg2 (be ! Suc m)"
  proof -
    have "nonneg2 ?b" using h by (intro nonneg2_matvec nonneg2_vmul) simp_all
    moreover have "0 < C ! m" using h by simp
    ultimately have b1: "nonneg2 (?be1 ! m)"
      using Suc.prems(2) nonneg2_scale by simp
    with ih h have "\<forall>k<m. nonneg2 (be' ! k)" by simp
    moreover have "be' ! m = ?be1 ! m" using ih by simp
    ultimately show ?thesis using b1 by (auto simp: less_Suc_eq)
  qed
  from fr nn show ?case by blast
qed


lemma zeta_loop_props:
  assumes "zeta_loop t A B al be [a..<b] (ze, ga) = Inr (ze', ga')" "b \<le> length ze" "b \<le> length ga"
  shows "length ze' = length ze \<and> length ga' = length ga
    \<and> (\<forall>i. i < a \<or> b \<le> i \<longrightarrow> ze' ! i = ze ! i \<and> ga' ! i = ga ! i)
    \<and> (\<forall>k. a \<le> k \<and> k < b \<longrightarrow>
          0 < msum (zeta_temp (al ! k) (vmul (be ! (k + 1)) (B ! (k + 1))) A)
          \<and> ze' ! k = mscale (zeta_temp (al ! k) (vmul (be ! (k + 1)) (B ! (k + 1))) A)
                        (msum (zeta_temp (al ! k) (vmul (be ! (k + 1)) (B ! (k + 1))) A))
          \<and> ga' ! k = row_sums (ze' ! k))"
  using assms
proof (induction "b - a" arbitrary: a ze ga)
  case 0
  then have "b \<le> a" by simp
  with "0.prems"(1) show ?case by auto
next
  case (Suc n)
  then have ab: "a < b" by simp
  let ?T = "zeta_temp (al ! a) (vmul (be ! (a + 1)) (B ! (a + 1))) A"
  let ?z = "mscale ?T (msum ?T)"
  from Suc.prems(1) have pos: "0 < msum ?T"
    and run: "zeta_loop t A B al be [Suc a..<b] (ze[a := ?z], ga[a := row_sums ?z]) = Inr (ze', ga')"
    by (simp_all add: upt_conv_Cons[OF ab] Let_def split: if_splits)
  have ih: "length ze' = length ze \<and> length ga' = length ga
    \<and> (\<forall>i. i < Suc a \<or> b \<le> i \<longrightarrow> ze' ! i = ze[a := ?z] ! i \<and> ga' ! i = ga[a := row_sums ?z] ! i)
    \<and> (\<forall>k. Suc a \<le> k \<and> k < b \<longrightarrow>
          0 < msum (zeta_temp (al ! k) (vmul (be ! (k + 1)) (B ! (k + 1))) A)
          \<and> ze' ! k = mscale (zeta_temp (al ! k) (vmul (be ! (k + 1)) (B ! (k + 1))) A)
                        (msum (zeta_temp (al ! k) (vmul (be ! (k + 1)) (B ! (k + 1))) A))
          \<and> ga' ! k = row_sums (ze' ! k))"
    using Suc.hyps(1)[OF _ run] Suc.hyps(2) Suc.prems(2,3) by simp
  have a_in: "a < length ze" "a < length ga" using ab Suc.prems(2,3) by simp_all
  have at_a: "ze' ! a = ?z" "ga' ! a = row_sums ?z" using ih a_in by simp_all
  have fr: "ze' ! i = ze ! i \<and> ga' ! i = ga ! i" if "i < a \<or> b \<le> i" for i
    using ih that ab by (cases "i = a") auto
  have mid: "0 < msum (zeta_temp (al ! k) (vmul (be ! (k + 1)) (B ! (k + 1))) A)
          \<and> ze' ! k = mscale (zeta_temp (al ! k) (vmul (be ! (k + 1)) (B ! (k + 1))) A)
                        (msum (zeta_temp (al ! k) (vmul (be ! (k + 1)) (B ! (k + 1))) A))
          \<and> ga' ! k = row_sums (ze' ! k)" if "a \<le> k \<and> k < b" for k
  proof (cases "k = a")
    case True
    with pos at_a show ?thesis by simp
  next
    case False
    with that have "Suc a \<le> k \<and> k < b" by simp
    with ih show ?thesis by blast
  qed
  from ih fr mid show ?case by blast
qed










lemma em_body_unfold:
  assumes "em_body cs hs m st = Inr st1"
  obtains al C lp be ze ga A' alphaa betaa mu where
    "forward (st_t st) (st_p0 st) (st_A st) (st_B st) (st_alpha st) = Inr (al, C)"
    "sum_log C = Inr lp"
    "backward (st_A st) (st_B st) C (st_beta st) = Inr be"
    "zeta_loop (st_t st) (st_A st) (st_B st) al be [0..<length cs - 1] (st_zeta st, st_gamma st) = Inr (ze, ga)"
    "update_A ze ga = Inr A'"
    "st1 = st \<lparr> st_A := A', st_alphaa := alphaa, st_betaa := betaa, st_mu := mu,
                  st_B := emission mu alphaa betaa cs hs,
                  st_p0 := ga ! 0,
                  st_alpha := al, st_beta := be, st_gamma := ga, st_zeta := ze,
                  st_log_P := (st_log_P st)[st_t st := Some lp] \<rparr>"
  using assms
  by (auto simp: em_body_def and_then_def Let_def split: sum.splits prod.splits)


lemma increment_fields:
  "increment st1 = Inr st2 \<Longrightarrow>
     st_t st2 = st_t st1 + 1 \<and> st_A st2 = st_A st1 \<and> st_B st2 = st_B st1 \<and> st_p0 st2 = st_p0 st1
     \<and> st_alpha st2 = st_alpha st1 \<and> st_beta st2 = st_beta st1 \<and> st_gamma st2 = st_gamma st1
     \<and> st_zeta st2 = st_zeta st1"
  by (auto simp: increment_def and_then_def split: if_splits sum.splits)

lemma em_body_tables:
  assumes ti: "tables_inv n st" and n: "length cs = n" and b: "em_body cs hs m st = Inr st1"
  shows "tables_inv n st1 \<and> 0 < n"
proof -
  from b obtain al C lp be ze ga A' alphaa betaa mu where
    f: "forward (st_t st) (st_p0 st) (st_A st) (st_B st) (st_alpha st) = Inr (al, C)"
    and bw: "backward (st_A st) (st_B st) C (st_beta st) = Inr be"
    and z: "zeta_loop (st_t st) (st_A st) (st_B st) al be [0..<length cs - 1] (st_zeta st, st_gamma st) = Inr (ze, ga)"
    and st1: "st1 = st \<lparr> st_A := A', st_alphaa := alphaa, st_betaa := betaa, st_mu := mu,
                  st_B := emission mu alphaa betaa cs hs,
                  st_p0 := ga ! 0,
                  st_alpha := al, st_beta := be, st_gamma := ga, st_zeta := ze,
                  st_log_P := (st_log_P st)[st_t st := Some lp] \<rparr>"
    by (rule em_body_unfold)
  from ti have len: "length (st_alpha st) = n" "length (st_beta st) = n" "length (st_gamma st) = n"
    "length (st_zeta st) = n" "length (st_B st) = n"
    by (simp_all add: tables_inv_def)
  from f len have n0: "0 < n" by (auto simp: forward_def Let_def split: if_splits)
  from f n0 len obtain a' C0 where
    "forward_loop (st_t st) (st_A st) (st_B st) [1..<n] ((st_alpha st)[0 := a'], C0) = Inr (al, C)"
    by (auto simp: forward_def Let_def and_then_def split: if_splits sum.splits)
  from forward_loop_frame[OF this] len have al: "length al = n" by simp
  from bw len obtain b' where
    "backward_loop (st_A st) (st_B st) C (rev [0..<n - 1]) ((st_beta st)[n - 1 := b']) = Inr be"
    by (auto simp: backward_def Let_def and_then_def split: sum.splits)
  from backward_loop_props[OF this] n0 len have be: "length be = n" by simp
  from zeta_loop_props[OF z] len n have
    zl: "length ze = n" "length ga = n"
    and zfr: "\<forall>i. n - 1 \<le> i \<longrightarrow> ze ! i = st_zeta st ! i \<and> ga ! i = st_gamma st ! i"
    by simp_all
  from ti n0 zfr have "ze ! (n - 1) = ((0, 0), (0, 0))" "ga ! (n - 1) = (0, 0)"
    by (simp_all add: tables_inv_def)
  with al be zl n n0 show ?thesis by (simp add: tables_inv_def st1 emission_length)
qed

lemma tables_inv_init: "tables_inv (length cs) (init_state cs hs A a b mu n)"
  by (simp add: tables_inv_def init_state_def Let_def emission_length)


lemma tables_inv_increment: "increment st1 = Inr st2 \<Longrightarrow> tables_inv n st1 \<Longrightarrow> tables_inv n st2"
  using increment_fields[of st1 st2] by (simp add: tables_inv_def)


lemma em_reach_tables:
  "em_reach cs hs m st0 st \<Longrightarrow> tables_inv (length cs) st0 \<Longrightarrow> tables_inv (length cs) st"
proof (induction rule: em_reach.induct)
  case start
  then show ?case .
next
  case (pass st st1 st2)
  then have "tables_inv (length cs) st" by simp
  from em_body_tables[OF this refl pass.hyps(2)] pass.hyps(3) show ?case
    by (simp add: tables_inv_increment)
qed

lemma em_reach_trans:
  "em_reach cs hs m b c \<Longrightarrow> em_reach cs hs m a b \<Longrightarrow> em_reach cs hs m a c"
  by (induction rule: em_reach.induct) (auto intro: em_reach.pass)

lemma em_loop_reach:
  "em_loop cs hs n m st = Inr st' \<Longrightarrow> em_reach cs hs m st st'"
proof (induction cs hs n m st rule: em_loop.induct)
  case (1 cs hs n m st)
  show ?case
  proof (cases "int (st_t st) < n - 1 \<and> 0 < st_diff_log_P st")
    case False
    with "1.prems" have "st' = st" by (subst (asm) em_loop.simps) auto
    then show ?thesis by (simp add: em_reach.start)
  next
    case True
    with "1.prems"(1) obtain st1 st2 where b: "em_body cs hs m st = Inr st1"
      and i: "increment st1 = Inr st2" and r: "em_loop cs hs n m st2 = Inr st'"
      by (subst (asm) em_loop.simps) (auto split: sum.splits)
    have "em_reach cs hs m st st2"
      by (rule em_reach.pass[OF em_reach.start b i])
    with "1.IH"[OF True b i r] show ?thesis by (rule em_reach_trans)
  qed
qed

lemma run_em_reach:
  "run_em cs hs A a b mu n m = Inr st \<Longrightarrow> em_reach cs hs m (init_state cs hs A a b mu n) st"
  by (auto simp: run_em_def split: if_splits intro: em_loop_reach)





section \<open>The transition matrix, the posterior table and the returned \<open>p0\<close>\<close>


lemma exp_gt_self: "x < exp (x::real)"
proof -
  have "x < 1 + x" by simp
  also have "1 + x \<le> exp x" by (rule exp_ge_add_one_self)
  finally show ?thesis .
qed




text \<open>
  Claim C3 fails on the code. Whenever \<open>_run_hmmem\<close> returns, the column of the last
  bin of the returned \<open>prob_S\<close> (the table \<open>gamma\<close>) is the pair of zeros it was
  allocated with: the loop of lines 203 to 221 stops at \<open>nbins - 2\<close> and the M-step
  does not write \<open>gamma\<close>. So that column sums to 0, not to 1.
\<close>

theorem last_gamma_column_zero:
  assumes "priv_run_hmmem cs hs init_A init_alphaa init_betaa init_mu n_iter_EM n_nr = Inr res"
  shows "length (ret_prob_S res) = length cs \<and> 0 < length cs
    \<and> ret_prob_S res ! (length cs - 1) = (0, 0)
    \<and> fst (ret_prob_S res ! (length cs - 1)) + snd (ret_prob_S res ! (length cs - 1)) \<noteq> 1"
proof -
  from assms obtain st where r: "run_em cs hs init_A init_alphaa init_betaa init_mu n_iter_EM n_nr = Inr st"
    and d: "decode st = Inr res"
    by (auto simp: priv_run_hmmem_def and_then_def split: sum.splits)
  from em_reach_tables[OF run_em_reach[OF r] tables_inv_init] have ti: "tables_inv (length cs) st" .
  from d have "length (st_B st) \<noteq> 0"
    by (auto simp: decode_def and_then_def split: if_splits sum.splits)
  with ti have n: "0 < length cs" by (simp add: tables_inv_def)
  with ti decode_trace[OF d] show ?thesis by (simp add: tables_inv_def)
qed

theorem last_gamma_column_zero_witness:
  "\<exists>res. priv_run_hmmem [0, 0] [0, 0] ((1/2, 1/2), (1/2, 1/2)) 0 0 0 10 0 = Inr res
     \<and> ret_prob_S res = [(1/2, 1/2), (0, 0)] \<and> ret_prob_S res ! 1 = (0, 0)"
proof -
  from priv_run_sym_10 obtain res where
    r: "priv_run_hmmem [0, 0] [0, 0] ((1/2, 1/2), (1/2, 1/2)) 0 0 0 10 0 = Inr res"
    and d: "decode (sym_state 3 0 sym_trace) = Inr res" by blast
  from decode_trace[OF d] have "ret_prob_S res = [(1/2, 1/2), (0, 0)]" by (simp add: sym_state_def)
  moreover from last_gamma_column_zero[OF r] have "ret_prob_S res ! 1 = (0, 0)" by simp
  ultimately show ?thesis using r by blast
qed

text \<open>
  Claim C8 fails on the code. Whenever \<open>_run_hmmem\<close> returns, the returned \<open>p0\<close> is
  the exponential of the column \<open>gamma[:, 0]\<close>, entry by entry (line 304), so each of
  its entries is strictly greater than the entry of \<open>gamma[:, 0]\<close>.
\<close>

theorem returned_p0_is_exp:
  assumes "priv_run_hmmem cs hs init_A init_alphaa init_betaa init_mu n_iter_EM n_nr = Inr res"
  shows "ret_p0 res = (exp (fst (ret_prob_S res ! 0)), exp (snd (ret_prob_S res ! 0)))
    \<and> fst (ret_prob_S res ! 0) < fst (ret_p0 res) \<and> snd (ret_prob_S res ! 0) < snd (ret_p0 res)"
proof -
  from assms obtain st where d: "decode st = Inr res"
    by (auto simp: priv_run_hmmem_def and_then_def split: sum.splits)
  from decode_trace[OF d] show ?thesis by (simp add: exp_gt_self)
qed

theorem returned_p0_is_exp_witness:
  "\<exists>res. priv_run_hmmem [0, 0] [0, 0] ((1/2, 1/2), (1/2, 1/2)) 0 0 0 10 0 = Inr res
     \<and> ret_prob_S res ! 0 = (1/2, 1/2) \<and> ret_p0 res = (exp (1/2), exp (1/2))
     \<and> 1 < fst (ret_p0 res) + snd (ret_p0 res)"
proof -
  from priv_run_sym_10 obtain res where
    r: "priv_run_hmmem [0, 0] [0, 0] ((1/2, 1/2), (1/2, 1/2)) 0 0 0 10 0 = Inr res"
    and d: "decode (sym_state 3 0 sym_trace) = Inr res" by blast
  from decode_trace[OF d] have g: "ret_prob_S res ! 0 = (1/2, 1/2)" by (simp add: sym_state_def)
  with returned_p0_is_exp[OF r] have p: "ret_p0 res = (exp (1/2), exp (1/2))" by simp
  have "(1::real) \<le> exp (1/2)" by simp
  then have "(1::real) < exp (1/2) + exp (1/2)" by linarith
  then have "1 < fst (ret_p0 res) + snd (ret_p0 res)" by (simp only: p fst_conv snd_conv)
  with r g p show ?thesis by blast
qed

text \<open>
  Claim C2 fails on the code at bin 0. With \<open>B[:, 0] = (0, 0)\<close> the scaling sum
  \<open>C[0]\<close> is 0; the forward pass does not raise for bin 0, it divides by \<open>C[0]\<close> and
  goes on with \<open>nan\<close>, with two bins and with one. The same column at bin 1 raises
  the error with \<open>t = 0\<close> and \<open>k = 1\<close>.
\<close>

theorem forward_first_bin_unchecked:
  "forward 0 (1/2, 1/2) ((1/2, 1/2), (1/2, 1/2)) [(0, 0), (1, 1)] [(0, 0), (0, 0)] = Inl NonFinite
   \<and> forward 0 (1/2, 1/2) ((1/2, 1/2), (1/2, 1/2)) [(0, 0)] [(0, 0)] = Inl NonFinite
   \<and> forward 0 (1/2, 1/2) ((1/2, 1/2), (1/2, 1/2)) [(1, 1), (0, 0)] [(0, 0), (0, 0)] = Inl (ScalingAlpha 0 1)"
  by (simp add: forward_def Let_def vmul_def vsum_def vdiv_def and_then_def upt_rec vecmat_def numeral_2_eq_2)

end
